theory Spec2Isabelle
  imports Complex_Main "HOL-Library.Word" "HOL-Library.AList"
begin

unbundle bit_operations_syntax

section \<open>Data model (sim.ts, in src/unnamed/part_001)\<close>

text \<open>
  JavaScript numbers are modelled as mathematical numbers: \<open>real\<close> for continuous quantities
  (positions, radii, ship counts, time), \<open>nat\<close> for array indices, identifiers and counters.
  NaN and the infinities are outside the model: \<open>Room.tick\<close> has the zero divisor as a branch
  of its own, and the generator's \<open>r / maxR\<close> is used only under \<open>0 < maxR\<close>. Sums, differences
  and products are exact, with one exception: the product under \<open>Math.floor\<close> in
  \<open>issueOrders\<close> is the rounded product of two doubles (\<open>dmul\<close> below), because there the
  rounding decides an integer.

  Field names carry a prefix (\<open>p_\<close> for Planet, \<open>f_\<close> for Fleet) because both interfaces
  have fields \<open>id\<close>, \<open>x\<close>, \<open>y\<close>, \<open>owner\<close> and \<open>ships\<close>.
\<close>

datatype Owner = NEUTRAL | PLAYER1 | PLAYER2 | PLAYER3 | PLAYER4

text \<open>The one exception the modelled code can throw: a property read on \<open>undefined\<close>.\<close>

datatype error = TypeError

record Planet =
  p_id :: nat
  p_x :: real
  p_y :: real
  p_r :: real
  p_owner :: Owner
  p_ships :: real
  p_production :: real

record Fleet =
  f_id :: nat
  f_owner :: Owner
  f_ships :: real
  f_x :: real
  f_y :: real
  f_vx :: real
  f_vy :: real
  f_fromId :: nat
  f_toId :: nat

record SimConfig =
  width :: real
  height :: real
  seed :: int
  planetCount :: real
  minR :: real
  maxR :: real
  fleetSpeed :: real
  tickRate :: real
  deltaHz :: real
  numPlayers :: real

text \<open>
  \<open>fleets\<close> is a JavaScript \<open>Map<number, Fleet>\<close>: an association list in insertion order.
  \<open>Map.set\<close> is \<^const>\<open>AList.update\<close> (an existing key keeps its place, a new key goes
  last) and \<open>Map.delete\<close> is \<^const>\<open>AList.delete\<close>.
\<close>

record SimState =
  cfg :: SimConfig
  tick :: nat
  planets :: "Planet list"
  fleets :: "(nat \<times> Fleet) list"
  nextFleetId :: nat

section \<open>Helpers of src/apps/game-worker/src/util.ts and of the JavaScript library\<close>

text \<open>\<open>dist = (x1, y1, x2, y2) => Math.hypot(x2 - x1, y2 - y1)\<close>\<close>

definition dist_xy :: "real \<Rightarrow> real \<Rightarrow> real \<Rightarrow> real \<Rightarrow> real" where
  "dist_xy x1 y1 x2 y2 = sqrt ((x2 - x1)\<^sup>2 + (y2 - y1)\<^sup>2)"

text \<open>\<open>Math.atan2(y, x)\<close> on the reals (no signed zero).\<close>

definition atan2 :: "real \<Rightarrow> real \<Rightarrow> real" where
  "atan2 y x =
     (if 0 < x then arctan (y / x)
      else if x < 0 \<and> 0 \<le> y then arctan (y / x) + pi
      else if x < 0 then arctan (y / x) - pi
      else if 0 < y then pi / 2
      else if y < 0 then - (pi / 2)
      else 0)"

text \<open>\<open>Math.round\<close>: the nearest integer, a half rounded up.\<close>

definition Math_round :: "real \<Rightarrow> int" where
  "Math_round v = \<lfloor>v + 1 / 2\<rfloor>"

text \<open>
  IEEE 754 binary64, round to nearest, ties to even. Near \<open>x\<close> the doubles are the integer
  multiples of \<open>quantum x\<close>, a power of two with exponent \<open>qexp x\<close>: 52 below the exponent of
  \<open>x\<close>, and never below -1074 (the subnormal range). Exponent overflow is outside the model.
\<close>

definition round_even :: "real \<Rightarrow> int" where
  "round_even y =
     (let n = \<lfloor>y\<rfloor> in
      if y - of_int n < 1 / 2 then n
      else if 1 / 2 < y - of_int n then n + 1
      else if even n then n else n + 1)"

definition qexp :: "real \<Rightarrow> int" where
  "qexp x = max (\<lfloor>log 2 \<bar>x\<bar>\<rfloor> - 52) (- 1074)"

definition quantum :: "real \<Rightarrow> real" where
  "quantum x = 2 powr of_int (qexp x)"

definition round_double :: "real \<Rightarrow> real" where
  "round_double x = (if x = 0 then 0 else of_int (round_even (x / quantum x)) * quantum x)"

definition is_double :: "real \<Rightarrow> bool" where
  "is_double x \<longleftrightarrow> round_double x = x"

text \<open>
  The JavaScript product \<open>a * b\<close> of two doubles: the exact product, rounded. Every number the
  code holds is a double; on reals that are not (they arise in the model because the other
  operations are exact) the product stays exact, as those operations do.
\<close>

definition dmul :: "real \<Rightarrow> real \<Rightarrow> real" where
  "dmul a b = (if is_double a \<and> is_double b then round_double (a * b) else a * b)"

text \<open>\<open>Array.prototype.findIndex\<close>; \<open>planets.find(p => ...)\<close> returns the element at that
  index, by reference.\<close>

fun findIndex :: "('a \<Rightarrow> bool) \<Rightarrow> 'a list \<Rightarrow> nat option" where
  "findIndex P [] = None"
| "findIndex P (a # as) = (if P a then Some 0 else map_option Suc (findIndex P as))"

section \<open>SimState.issueOrders\<close>

text \<open>
  One iteration of \<open>for (const id of fromIds)\<close>. The accumulator is the list \<open>created\<close>
  and the state; \<open>target\<close> is the planet found before the loop.
\<close>

definition issueOrders_body ::
  "Owner \<Rightarrow> Planet \<Rightarrow> nat \<Rightarrow> real \<Rightarrow> Fleet list \<times> SimState \<Rightarrow> nat \<Rightarrow> Fleet list \<times> SimState" where
  "issueOrders_body ow target targetId pct acc i =
     (case acc of (created, s) \<Rightarrow>
       (case findIndex (\<lambda>p. p_id p = i) (planets s) of
          None \<Rightarrow> (created, s)
        | Some k \<Rightarrow>
           (let from = planets s ! k in
            if p_owner from \<noteq> ow then (created, s)
            else if p_id from = targetId then (created, s)
            else
              (let send = \<lfloor>dmul (p_ships from) (min 1 pct)\<rfloor> in
               if send \<le> 0 then (created, s)
               else
                 (let ang = atan2 (p_y target - p_y from) (p_x target - p_x from);
                      speed = fleetSpeed (cfg s);
                      f = \<lparr> f_id = nextFleetId s, f_owner = ow, f_ships = of_int send,
                            f_x = p_x from + cos ang * (p_r from + 6),
                            f_y = p_y from + sin ang * (p_r from + 6),
                            f_vx = cos ang * speed, f_vy = sin ang * speed,
                            f_fromId = p_id from, f_toId = p_id target \<rparr>
                  in (created @ [f],
                      s\<lparr> planets := (planets s)[k := from\<lparr> p_ships := p_ships from - of_int send \<rparr>],
                         fleets := AList.update (f_id f) f (fleets s),
                         nextFleetId := Suc (nextFleetId s) \<rparr>))))))"

definition issueOrders ::
  "SimState \<Rightarrow> Owner \<Rightarrow> nat list \<Rightarrow> nat \<Rightarrow> real \<Rightarrow> Fleet list \<times> SimState" where
  "issueOrders s ow fromIds targetId pct =
     (if pct \<le> 0 then ([], s)
      else
        (case List.find (\<lambda>p. p_id p = targetId) (planets s) of
           None \<Rightarrow> ([], s)
         | Some target \<Rightarrow> foldl (issueOrders_body ow target targetId pct) ([], s) fromIds))"

section \<open>SimState.step\<close>

text \<open>Production: \<open>if (p.owner !== Owner.NEUTRAL) p.ships += p.production * dt\<close>\<close>

definition accrue :: "real \<Rightarrow> Planet \<Rightarrow> Planet" where
  "accrue dt p =
     (if p_owner p \<noteq> NEUTRAL then p\<lparr> p_ships := p_ships p + p_production p * dt \<rparr> else p)"

text \<open>\<open>f.x += f.vx * dt; f.y += f.vy * dt\<close>\<close>

definition advance :: "real \<Rightarrow> Fleet \<Rightarrow> Fleet" where
  "advance dt f = f\<lparr> f_x := f_x f + f_vx f * dt, f_y := f_y f + f_vy f * dt \<rparr>"

text \<open>\<open>tgt && dist(f.x, f.y, tgt.x, tgt.y) <= tgt.r\<close>, with \<open>tgt = this.planets[f.toId]\<close>
  (\<open>undefined\<close> when the index is out of range).\<close>

definition arrived :: "Planet list \<Rightarrow> Fleet \<Rightarrow> bool" where
  "arrived ps f \<longleftrightarrow>
     f_toId f < length ps \<and>
     dist_xy (f_x f) (f_y f) (p_x (ps ! f_toId f)) (p_y (ps ! f_toId f)) \<le> p_r (ps ! f_toId f)"

text \<open>The arrival branch: reinforcement or combat.\<close>

definition resolve :: "Fleet \<Rightarrow> Planet \<Rightarrow> Planet" where
  "resolve f tgt =
     (if f_owner f = p_owner tgt then tgt\<lparr> p_ships := p_ships tgt + f_ships f \<rparr>
      else
        (let remaining = p_ships tgt - f_ships f in
         if remaining < 0 then tgt\<lparr> p_owner := f_owner f, p_ships := \<bar>remaining\<bar> \<rparr>
         else tgt\<lparr> p_ships := remaining \<rparr>))"

text \<open>
  One iteration of \<open>for (const f of this.fleets.values())\<close>. The accumulator holds the
  planets, the fleets already visited (each mutated in place) and \<open>removed\<close>.
\<close>

definition step_fleet ::
  "real \<Rightarrow> Planet list \<times> (nat \<times> Fleet) list \<times> nat list \<Rightarrow> nat \<times> Fleet
     \<Rightarrow> Planet list \<times> (nat \<times> Fleet) list \<times> nat list" where
  "step_fleet dt acc kf =
     (case acc of (ps, visited, removed) \<Rightarrow>
      (case kf of (k, f0) \<Rightarrow>
        (let f = advance dt f0 in
         if arrived ps f
         then (ps[f_toId f := resolve f (ps ! f_toId f)], visited @ [(k, f)], removed @ [f_id f])
         else (ps, visited @ [(k, f)], removed))))"

definition step :: "SimState \<Rightarrow> real \<Rightarrow> SimState \<times> nat list" where
  "step s dt =
     (case foldl (step_fleet dt) (map (accrue dt) (planets s), [], []) (fleets s) of
        (ps, fs, removed) \<Rightarrow>
          (s\<lparr> planets := ps,
              fleets := foldl (\<lambda>m i. AList.delete i m) fs removed,
              tick := Suc (tick s) \<rparr>,
           removed))"

text \<open>Repeated steps, as the tick timer drives them.\<close>

fun steps :: "SimState \<Rightarrow> real list \<Rightarrow> SimState" where
  "steps s [] = s"
| "steps s (dt # dts) = steps (fst (step s dt)) dts"

text \<open>The part of a planet that no operation changes after generation: its id and circle.\<close>

definition static :: "Planet \<Rightarrow> nat \<times> real \<times> real \<times> real" where
  "static p = (p_id p, p_x p, p_y p, p_r p)"

section \<open>World generation (randSeeded of util.ts, SimState.initMap of sim.ts)\<close>

text \<open>
  \<open>randSeeded\<close> keeps \<open>t\<close> as a JavaScript number and adds \<open>0x6d2b79f5\<close> at every call
  without truncating; the bit operations read \<open>t\<close> modulo \<open>2^32\<close>. The state is a \<open>nat\<close>
  and \<open>word_of_nat\<close> is that reading (exact while \<open>t < 2^53\<close>). \<open>Math.imul\<close> and the
  32-bit operators are word arithmetic; \<open>>>>\<close> is \<open>drop_bit\<close>.
\<close>

definition rand_next :: "nat \<Rightarrow> real \<times> nat" where
  "rand_next t0 =
     (let t = t0 + 0x6d2b79f5;
          tw = (word_of_nat t :: 32 word);
          r = (tw XOR drop_bit 15 tw) * (1 OR tw);
          r2 = r XOR (r + (r XOR drop_bit 7 r) * (61 OR r))
      in (real (unat (r2 XOR drop_bit 14 r2)) / 4294967296, t))"

text \<open>\<open>let t = seed >>> 0\<close>\<close>

definition rand_init :: "int \<Rightarrow> nat" where
  "rand_init sd = unat (word_of_int sd :: 32 word)"

text \<open>
  The candidate planet of one iteration of the placement loop: five calls of \<open>rand()\<close>, in
  the order of the source (radius, x, y, production, ships). \<open>n\<close> is \<open>this.planets.length\<close>.
\<close>

definition candidate :: "SimConfig \<Rightarrow> nat \<Rightarrow> nat \<Rightarrow> Planet \<times> nat" where
  "candidate c n t0 =
     (case rand_next t0 of (u1, t1) \<Rightarrow>
      case rand_next t1 of (u2, t2) \<Rightarrow>
      case rand_next t2 of (u3, t3) \<Rightarrow>
      case rand_next t3 of (u4, t4) \<Rightarrow>
      case rand_next t4 of (u5, t5) \<Rightarrow>
        (let r = minR c + (maxR c - minR c) * u1;
             x = 64 + r + (width c - 2 * (64 + r)) * u2;
             y = 64 + r + (height c - 2 * (64 + r)) * u3;
             production = (r / maxR c) * (7 / 10 + u4 * (6 / 10))
         in (\<lparr> p_id = n, p_x = x, p_y = y, p_r = r, p_owner = NEUTRAL,
               p_ships = of_int (Math_round (r * (12 / 10 + u5))),
               p_production = production \<rparr>, t5)))"

text \<open>\<open>this.planets.every(p => dist(p.x, p.y, x, y) > p.r + r + 16)\<close>\<close>

definition clear_of :: "Planet list \<Rightarrow> Planet \<Rightarrow> bool" where
  "clear_of ps cand =
     list_all (\<lambda>p. dist_xy (p_x p) (p_y p) (p_x cand) (p_y cand) > p_r p + p_r cand + 16) ps"

text \<open>
  The \<open>while (this.planets.length < planetCount)\<close> loop. The fuel bounds the number of
  evaluations of the loop condition; \<open>None\<close> says the fuel ran out before the loop ended.
\<close>

fun place_loop :: "nat \<Rightarrow> SimConfig \<Rightarrow> nat \<Rightarrow> Planet list \<Rightarrow> Planet list option" where
  "place_loop 0 c t ps = None"
| "place_loop (Suc fuel) c t ps =
     (if real (length ps) < planetCount c
      then
        (case candidate c (length ps) t of
           (cand, t') \<Rightarrow>
             (let ps' = (if clear_of ps cand then ps @ [cand] else ps)
              in if length ps' > 2000 then Some ps' else place_loop fuel c t' ps'))
      else Some ps)"

text \<open>The two nested \<open>for\<close> loops that pick the farthest pair.\<close>

definition index_pairs :: "nat \<Rightarrow> (nat \<times> nat) list" where
  "index_pairs n = concat (map (\<lambda>i. map (Pair i) [Suc i ..< n]) [0 ..< n])"

definition farthest_step :: "Planet list \<Rightarrow> nat \<times> nat \<times> real \<Rightarrow> nat \<times> nat \<Rightarrow> nat \<times> nat \<times> real" where
  "farthest_step ps best ij =
     (case best of (bestI, bestJ, bestD) \<Rightarrow>
      case ij of (i, j) \<Rightarrow>
        (let d = dist_xy (p_x (ps ! i)) (p_y (ps ! i)) (p_x (ps ! j)) (p_y (ps ! j))
         in if d > bestD then (i, j, d) else (bestI, bestJ, bestD)))"

definition farthest_pair :: "Planet list \<Rightarrow> nat \<times> nat" where
  "farthest_pair ps =
     (case foldl (farthest_step ps) (0, 1, - 1) (index_pairs (length ps)) of
        (bestI, bestJ, bestD) \<Rightarrow> (bestI, bestJ))"

definition make_base :: "Owner \<Rightarrow> Planet \<Rightarrow> Planet" where
  "make_base ow p =
     p\<lparr> p_owner := ow, p_ships := max 40 (p_r p * (22 / 10)),
        p_production := p_production p * (11 / 10) \<rparr>"

text \<open>
  The block after the loop. \<open>this.planets[bestI].owner = ...\<close> throws a TypeError when the
  index is out of range.
\<close>

definition assign_bases :: "SimConfig \<Rightarrow> Planet list \<Rightarrow> error + Planet list" where
  "assign_bases c ps =
     (if real (length ps) \<ge> numPlayers c
      then
        (case farthest_pair ps of
           (bestI, bestJ) \<Rightarrow>
             if \<not> bestI < length ps then Inl TypeError
             else
               (let ps1 = ps[bestI := make_base PLAYER1 (ps ! bestI)] in
                if numPlayers c \<ge> 2
                then (if \<not> bestJ < length ps1 then Inl TypeError
                      else Inr (ps1[bestJ := make_base PLAYER2 (ps1 ! bestJ)]))
                else Inr ps1))
      else Inr ps)"

definition initMap :: "nat \<Rightarrow> SimConfig \<Rightarrow> (error + Planet list) option" where
  "initMap fuel c = map_option (assign_bases c) (place_loop fuel c (rand_init (seed c)) [])"

text \<open>\<open>new SimState(cfg)\<close>\<close>

definition new_SimState :: "nat \<Rightarrow> SimConfig \<Rightarrow> (error + SimState) option" where
  "new_SimState fuel c =
     map_option (map_sum (\<lambda>e. e)
        (\<lambda>ps. \<lparr> cfg = c, tick = 0, planets = ps, fleets = [], nextFleetId = 1 \<rparr>))
       (initMap fuel c)"

section \<open>Wire messages (protocol.ts, in src/unnamed/part_002)\<close>

text \<open>
  The server messages as the Room builds them, before \<open>encodeServer\<close>. A \<open>NewFleet\<close>
  carries the nine fields of a Fleet under the wire names, so the model reuses \<^typ>\<open>Fleet\<close>.
\<close>

record PlanetGeom =
  pg_id :: nat
  pg_x :: real
  pg_y :: real
  pg_r :: real
  pg_production :: real

record PlanetDelta =
  pd_id :: nat
  pd_owner :: Owner
  pd_ships :: int

record Snapshot =
  sn_tick :: nat
  sn_planets :: "PlanetDelta list"
  sn_fleets :: "Fleet list"

record Delta =
  d_tick :: nat
  d_planets :: "PlanetDelta list"
  d_fleets :: "(nat \<times> real \<times> real) list"
  d_remove_fleets :: "nat list"
  d_new_fleets :: "Fleet list"

record Welcome =
  w_room_id :: nat
  w_tick_rate :: real
  w_delta_hz :: real
  w_player_id :: Owner
  w_layout :: "PlanetGeom list"
  w_snapshot :: Snapshot

datatype ClientEnvelope =
    IssueOrders "nat list" nat real
  | RequestSnapshot
  | Ping nat

section \<open>Room (room.ts, in src/unnamed/part_002)\<close>

text \<open>
  A connection (\<open>WS\<close>) is an identity. \<open>clients\<close> and \<open>changedPlanets\<close> are JavaScript
  Sets, \<open>players\<close> and \<open>movedFleets\<close> are Maps: lists in insertion order.
\<close>

type_synonym WS = nat

record Room =
  room_id :: nat
  sim :: SimState
  clients :: "WS list"
  players :: "(WS \<times> Owner) list"
  lastDeltaSent :: real
  changedPlanets :: "nat list"
  movedFleets :: "(nat \<times> real \<times> real) list"
  newFleets :: "Fleet list"

text \<open>\<open>new Room(id, cfg)\<close>\<close>

definition new_Room :: "nat \<Rightarrow> nat \<Rightarrow> SimConfig \<Rightarrow> (error + Room) option" where
  "new_Room fuel n c =
     map_option (map_sum (\<lambda>e. e)
        (\<lambda>s. \<lparr> room_id = n, sim = s, clients = [], players = [], lastDeltaSent = 0,
               changedPlanets = [], movedFleets = [], newFleets = [] \<rparr>))
       (new_SimState fuel c)"

text \<open>\<open>Set.prototype.add\<close>\<close>

definition Set_add :: "'a \<Rightarrow> 'a list \<Rightarrow> 'a list" where
  "Set_add a xs = (if a \<in> set xs then xs else xs @ [a])"

definition assignOwner :: "Room \<Rightarrow> Owner" where
  "assignOwner rm =
     (let used = set (map snd (players rm)) in
      if PLAYER1 \<notin> used then PLAYER1
      else if PLAYER2 \<notin> used then PLAYER2
      else if PLAYER3 \<notin> used then PLAYER3
      else if PLAYER4 \<notin> used then PLAYER4
      else NEUTRAL)"

definition snapshot_of :: "SimState \<Rightarrow> Snapshot" where
  "snapshot_of s =
     \<lparr> sn_tick = tick s,
       sn_planets = map (\<lambda>p. \<lparr> pd_id = p_id p, pd_owner = p_owner p,
                                 pd_ships = Math_round (p_ships p) \<rparr>) (planets s),
       sn_fleets = map snd (fleets s) \<rparr>"

text \<open>\<open>join\<close> returns the changed room, the assigned seat and the Welcome sent to \<open>ws\<close>.\<close>

definition join :: "Room \<Rightarrow> WS \<Rightarrow> Room \<times> Owner \<times> Welcome" where
  "join rm ws =
     (let rm1 = rm\<lparr> clients := Set_add ws (clients rm) \<rparr>;
          owner = assignOwner rm1;
          rm2 = rm1\<lparr> players := AList.update ws owner (players rm1) \<rparr>;
          layout = map (\<lambda>p. \<lparr> pg_id = p_id p, pg_x = p_x p, pg_y = p_y p, pg_r = p_r p,
                                 pg_production = p_production p \<rparr>) (planets (sim rm2))
      in (rm2, owner,
          \<lparr> w_room_id = room_id rm2, w_tick_rate = tickRate (cfg (sim rm2)),
            w_delta_hz = deltaHz (cfg (sim rm2)), w_player_id = owner,
            w_layout = layout, w_snapshot = snapshot_of (sim rm2) \<rparr>))"

definition leave :: "Room \<Rightarrow> WS \<Rightarrow> Room" where
  "leave rm ws =
     rm\<lparr> clients := removeAll ws (clients rm), players := AList.delete ws (players rm) \<rparr>"

definition issueOrdersFrom :: "Room \<Rightarrow> WS \<Rightarrow> nat list \<Rightarrow> nat \<Rightarrow> real \<Rightarrow> Room" where
  "issueOrdersFrom rm ws fromIds targetId pct =
     (case map_of (players rm) ws of
        None \<Rightarrow> rm
      | Some owner \<Rightarrow>
          if owner = NEUTRAL then rm
          else
            (case issueOrders (sim rm) owner fromIds targetId pct of
               (created, s') \<Rightarrow>
                 rm\<lparr> sim := s',
                     newFleets := newFleets rm @ created,
                     changedPlanets :=
                       Set_add targetId (foldl (\<lambda>c i. Set_add i c) (changedPlanets rm) fromIds) \<rparr>))"

text \<open>
  The \<open>planets\<close> field of a Delta: for each staged id, \<open>p = this.sim.planets[id]\<close> and then
  \<open>p.owner\<close>, which throws a TypeError when \<open>p\<close> is \<open>undefined\<close>.
\<close>

fun delta_planets :: "Planet list \<Rightarrow> nat list \<Rightarrow> error + PlanetDelta list" where
  "delta_planets ps [] = Inr []"
| "delta_planets ps (i # ids) =
     (if i < length ps
      then (case delta_planets ps ids of
              Inl e \<Rightarrow> Inl e
            | Inr ds \<Rightarrow> Inr (\<lparr> pd_id = i, pd_owner = p_owner (ps ! i),
                               pd_ships = Math_round (p_ships (ps ! i)) \<rparr> # ds))
      else Inl TypeError)"

text \<open>
  \<open>Room.tick\<close> returns the room as the call leaves it and what it sent: \<open>Inr (Some d)\<close> when
  the Delta \<open>d\<close> was broadcast to every member of \<open>clients\<close>, \<open>Inr None\<close> when the gate was
  closed, \<open>Inl e\<close> when the call threw (the fields assigned before the throw keep their new
  values). \<open>1000 / deltaHz\<close> is \<open>Infinity\<close> for \<open>deltaHz = 0\<close>: the gate never opens.
\<close>

definition Room_tick :: "Room \<Rightarrow> real \<Rightarrow> real \<Rightarrow> Room \<times> (error + Delta option)" where
  "Room_tick rm dt nowMs =
     (case step (sim rm) dt of
        (s', removed) \<Rightarrow>
          (let changed = (if tick s' mod 4 = 0
                          then foldl (\<lambda>c p. Set_add (p_id p) c) (changedPlanets rm) (planets s')
                          else changedPlanets rm);
               moved = foldl (\<lambda>m kf. AList.update (f_id (snd kf)) (f_x (snd kf), f_y (snd kf)) m)
                         (movedFleets rm) (fleets s');
               rm1 = rm\<lparr> sim := s', changedPlanets := changed, movedFleets := moved \<rparr>
           in if deltaHz (cfg s') = 0 then (rm1, Inr None)
              else if nowMs - lastDeltaSent rm1 \<ge> 1000 / deltaHz (cfg s')
              then
                (let rm2 = rm1\<lparr> lastDeltaSent := nowMs \<rparr> in
                 case delta_planets (planets s') changed of
                   Inl e \<Rightarrow> (rm2, Inl e)
                 | Inr ds \<Rightarrow>
                     (rm2\<lparr> changedPlanets := [], movedFleets := [], newFleets := [] \<rparr>,
                      Inr (Some \<lparr> d_tick = tick s', d_planets = ds, d_fleets = moved,
                                  d_remove_fleets = removed, d_new_fleets = newFleets rm2 \<rparr>)))
              else (rm1, Inr None)))"

text \<open>The number of Delta messages a call of \<open>Room.tick\<close> broadcast.\<close>

definition deltas_sent :: "error + Delta option \<Rightarrow> nat" where
  "deltas_sent out = (case out of Inr (Some d) \<Rightarrow> 1 | _ \<Rightarrow> 0)"

section \<open>The game worker's message handler and configuration (src/unnamed/part_000)\<close>

text \<open>
  \<open>decodeClient\<close> (protocol.ts) decodes against a schema that \<open>pb.parse\<close> read without
  \<open>keepCase\<close>, so protobufjs names the fields in camel case: the object \<open>toObject\<close> returns
  has the single key \<open>issueOrders\<close>, \<open>requestSnapshot\<close> or \<open>ping\<close>. The model keeps that
  key with the message.
\<close>

definition decodeClient :: "ClientEnvelope \<Rightarrow> (string \<times> ClientEnvelope) list" where
  "decodeClient msg =
     (case msg of
        IssueOrders from_ids target_id pct \<Rightarrow> [(''issueOrders'', msg)]
      | RequestSnapshot \<Rightarrow> [(''requestSnapshot'', msg)]
      | Ping n \<Rightarrow> [(''ping'', msg)])"

text \<open>
  The body of \<open>message:\<close>. It tests \<open>env.issue_orders\<close>, then \<open>env.request_snapshot\<close>, then
  \<open>env.ping\<close>; a key the object does not have reads as \<open>undefined\<close>, and the branch is
  skipped. A Ping is answered without touching the room.
\<close>

definition on_message :: "Room \<Rightarrow> WS \<Rightarrow> ClientEnvelope \<Rightarrow> Room" where
  "on_message rm ws msg =
     (let env = map_of (decodeClient msg) in
      case env ''issue_orders'' of
        Some (IssueOrders from_ids target_id pct) \<Rightarrow>
          issueOrdersFrom rm ws from_ids target_id (max 0 (min 1 pct))
      | _ \<Rightarrow>
          (case env ''request_snapshot'' of
             Some m \<Rightarrow> fst (join rm ws)
           | None \<Rightarrow> rm))"

definition TICK_HZ :: real where "TICK_HZ = 30"
definition DELTA_HZ :: real where "DELTA_HZ = 15"

text \<open>\<open>RoomManager.cfg\<close>\<close>

definition manager_cfg :: SimConfig where
  "manager_cfg =
     \<lparr> width = 1600, height = 900, seed = 13371337, planetCount = 24, minR = 18, maxR = 34,
       fleetSpeed = 120, tickRate = TICK_HZ, deltaHz = DELTA_HZ, numPlayers = 2 \<rparr>"

section \<open>A two-planet world for the examples\<close>

text \<open>
  Planet 0 is the base of PLAYER1, planet 1 is neutral and holds \<open>d\<close> ships; both lie on the
  line \<open>y = 100\<close>. \<open>ex_fleet n x0\<close> is a fleet of PLAYER1 with \<open>n\<close> ships on that line at
  \<open>x = x0\<close>, flying from planet 0 to planet 1 at the configured speed.
\<close>

definition ex_planets :: "real \<Rightarrow> Planet list" where
  "ex_planets d =
     [\<lparr> p_id = 0, p_x = 100, p_y = 100, p_r = 20, p_owner = PLAYER1, p_ships = 40,
        p_production = 1 \<rparr>,
      \<lparr> p_id = 1, p_x = 400, p_y = 100, p_r = 20, p_owner = NEUTRAL, p_ships = d,
        p_production = 1 / 2 \<rparr>]"

definition ex_fleet :: "real \<Rightarrow> real \<Rightarrow> Fleet" where
  "ex_fleet n x0 =
     \<lparr> f_id = 1, f_owner = PLAYER1, f_ships = n, f_x = x0, f_y = 100, f_vx = 120, f_vy = 0,
       f_fromId = 0, f_toId = 1 \<rparr>"

definition ex_state :: "real \<Rightarrow> (nat \<times> Fleet) list \<Rightarrow> SimState" where
  "ex_state d fs =
     \<lparr> cfg = manager_cfg\<lparr> planetCount := 2 \<rparr>, tick = 0, planets = ex_planets d, fleets = fs,
       nextFleetId = 2 \<rparr>"

text \<open>
  A room over that world: \<open>ex_room fs t0\<close> has one member, connection 7 seated as PLAYER1,
  the fleets \<open>fs\<close> in flight and \<open>lastDeltaSent = t0\<close>; \<open>empty_room\<close> has no member yet.
\<close>

definition ex_room :: "(nat \<times> Fleet) list \<Rightarrow> real \<Rightarrow> Room" where
  "ex_room fs t0 =
     \<lparr> room_id = 1, sim = ex_state 50 fs, clients = [7], players = [(7, PLAYER1)],
       lastDeltaSent = t0, changedPlanets = [], movedFleets = [], newFleets = [] \<rparr>"

definition empty_room :: Room where
  "empty_room =
     \<lparr> room_id = 1, sim = ex_state 50 [], clients = [], players = [], lastDeltaSent = 0,
       changedPlanets = [], movedFleets = [], newFleets = [] \<rparr>"

text \<open>
  Three configurations for the generator, each the server's with some fields changed. In
  \<open>dense_cfg\<close> the radius bounds coincide and the world is exactly as wide and as high as
  one padded planet, so every candidate is the circle of radius 18 at (82, 82); two planets
  are asked for. \<open>line_cfg\<close> keeps the server's width, so the two planets it asks for lie on
  the line \<open>y = 82\<close>. \<open>neg_cfg\<close> asks for one planet with the radius bounds at -10.
\<close>

definition dense_cfg :: SimConfig where
  "dense_cfg = manager_cfg\<lparr> width := 164, height := 164, planetCount := 2, minR := 18, maxR := 18 \<rparr>"



section \<open>Ship-count invariant and reachable states\<close>



text \<open>
  The states of a match under configuration \<open>c\<close>: what \<open>new SimState(c)\<close> returns, closed
  under \<open>issueOrders\<close> with any arguments and under \<open>step\<close> with a time step \<open>dt \<ge> 0\<close>.
\<close>

inductive reachable :: "SimConfig \<Rightarrow> SimState \<Rightarrow> bool" for c :: SimConfig where
  generated: "new_SimState fuel c = Some (Inr s) \<Longrightarrow> reachable c s"
| ordered: "reachable c s \<Longrightarrow> reachable c (snd (issueOrders s ow fromIds targetId pct))"
| stepped: "reachable c s \<Longrightarrow> 0 \<le> dt \<Longrightarrow> reachable c (fst (step s dt))"




text \<open>Planet ids are array indices: \<open>initMap\<close> sets \<open>id: this.planets.length\<close>.\<close>

definition ids_ok :: "Planet list \<Rightarrow> bool" where
  "ids_ok ps \<longleftrightarrow> map p_id ps = [0 ..< length ps]"

text \<open>The double nearest to 1/3, which is what a client that sends \<open>pct = 1 / 3\<close> sends.\<close>

definition third :: real where
  "third = 6004799503160661 / 18014398509481984"

section \<open>Facts about double rounding\<close>


lemma round_even_of_int [simp]: "round_even (of_int n) = n"
  by (simp add: round_even_def)

lemma round_even_tie:
  assumes "y = of_int n + 1 / 2"
  shows "round_even y = (if even n then n else n + 1)"
proof -
  have "\<lfloor>y\<rfloor> = n"
    using assms by (simp add: floor_eq_iff)
  then show ?thesis
    using assms by (simp add: round_even_def)
qed




lemma quantum_qexp: "quantum x = 2 powr of_int (qexp x)"
  by (simp add: quantum_def)








lemma qexp_eval:
  assumes "0 < x" and "2 powr of_int k \<le> x" and "x < 2 powr of_int (k + 1)" and "- 1022 \<le> k"
  shows "qexp x = k - 52"
proof -
  have "of_int k \<le> log 2 x"
    using assms(1,2) by (simp add: le_log_iff)
  moreover have "log 2 x < of_int k + 1"
    using assms(1,3) by (simp add: log_less_iff)
  ultimately have "\<lfloor>log 2 x\<rfloor> = k"
    by (simp add: floor_eq_iff)
  then show ?thesis
    using assms(1,4) by (simp add: qexp_def)
qed

lemma round_double_eval:
  assumes "0 < x" and "2 powr of_int k \<le> x" and "x < 2 powr of_int (k + 1)" and "- 1022 \<le> k"
  shows "round_double x =
    of_int (round_even (x / 2 powr of_int (k - 52))) * 2 powr of_int (k - 52)"
  using assms(1) by (simp add: round_double_def quantum_qexp qexp_eval [OF assms])

lemma is_double_40: "is_double 40"
  unfolding is_double_def
  by (subst round_double_eval [of _ 5]) (simp_all add: round_even_def powr_minus_divide)

lemma is_double_half: "is_double (1 / 2)"
  unfolding is_double_def
  by (subst round_double_eval [of _ "- 1"]) (simp_all add: round_even_def powr_minus_divide)

lemma is_double_1: "is_double 1"
  unfolding is_double_def
  by (subst round_double_eval [of _ 0]) (simp_all add: round_even_def powr_minus_divide)

lemma is_double_3: "is_double 3"
  unfolding is_double_def
  by (subst round_double_eval [of _ 1]) (simp_all add: round_even_def powr_minus_divide)

lemma round_double_20: "round_double 20 = 20"
  by (subst round_double_eval [of _ 4]) (simp_all add: round_even_def powr_minus_divide)

lemma is_double_third: "is_double third"
  unfolding is_double_def third_def
  by (subst round_double_eval [of _ "- 2"]) (simp_all add: round_even_def powr_minus_divide)

lemma round_double_3_third: "round_double (3 * third) = 1"
proof -
  have "round_even (3 * third / 2 powr of_int (- 1 - 52)) = 9007199254740992"
    by (subst round_even_tie [of _ 9007199254740991]) (simp_all add: third_def powr_minus_divide)
  then show ?thesis
    by (subst round_double_eval [of _ "- 1"]) (simp_all add: third_def powr_minus_divide)
qed

lemma floor_3_third: "\<lfloor>3 * third\<rfloor> = 0"
  by (simp add: third_def)

lemma dmul_exact: "is_double (a * b) \<Longrightarrow> dmul a b = a * b"
  by (simp add: dmul_def is_double_def)

lemma dmul_40_half: "dmul 40 (1 / 2) = 20"
  using round_double_20 by (simp add: dmul_def is_double_40 is_double_half)

lemma dmul_3_third: "dmul 3 third = 1"
  by (simp add: dmul_def is_double_3 is_double_third round_double_3_third)

lemma third_bounds: "0 < third" "third < 1"
  by (simp_all add: third_def)

section \<open>Facts about the step loop\<close>

lemma static_resolve [simp]: "static (resolve f p) = static p"
  by (simp add: static_def resolve_def Let_def)

lemma static_accrue [simp]: "static (accrue dt p) = static p"
  by (simp add: static_def accrue_def)

lemma arrived_static:
  assumes "map static ps' = map static ps"
  shows "arrived ps' f = arrived ps f"
proof -
  have len: "length ps' = length ps"
    using assms by (metis length_map)
  have "static (ps' ! f_toId f) = static (ps ! f_toId f)" if "f_toId f < length ps"
    using that assms len by (metis nth_map)
  then show ?thesis
    unfolding arrived_def len by (auto simp: static_def)
qed

lemma map_static_update:
  "i < length ps \<Longrightarrow> map static (ps[i := resolve f (ps ! i)]) = map static ps"
  by (simp add: map_update list_update_same_conv)

lemma advance_fields [simp]:
  "f_id (advance dt f) = f_id f" "f_owner (advance dt f) = f_owner f"
  "f_ships (advance dt f) = f_ships f" "f_toId (advance dt f) = f_toId f"
  "f_fromId (advance dt f) = f_fromId f" "f_vx (advance dt f) = f_vx f"
  "f_vy (advance dt f) = f_vy f"
  by (simp_all add: advance_def)

lemma step_fleet_pair:
  "step_fleet dt (ps, visited, removed) (k, f) =
     (if arrived ps (advance dt f)
      then (ps[f_toId f := resolve (advance dt f) (ps ! f_toId f)],
            visited @ [(k, advance dt f)], removed @ [f_id f])
      else (ps, visited @ [(k, advance dt f)], removed))"
  by (simp add: step_fleet_def Let_def)

lemma foldl_step_fleet:
  "\<exists>ps'. foldl (step_fleet dt) (ps, visited, removed) fl =
      (ps', visited @ map (\<lambda>(k, f). (k, advance dt f)) fl,
       removed @ map (\<lambda>(k, f). f_id f) (filter (\<lambda>(k, f). arrived ps (advance dt f)) fl))
     \<and> map static ps' = map static ps"
proof (induction fl arbitrary: ps visited removed)
  case Nil
  show ?case by simp
next
  case (Cons kf fl)
  obtain k f where kf: "kf = (k, f)" by (cases kf)
  show ?case
  proof (cases "arrived ps (advance dt f)")
    case True
    let ?ps1 = "ps[f_toId f := resolve (advance dt f) (ps ! f_toId f)]"
    have g: "map static ?ps1 = map static ps"
      using True by (simp add: map_static_update arrived_def)
    have a: "arrived ?ps1 = arrived ps"
      using arrived_static [OF g] by (rule ext)
    obtain ps' where
      "foldl (step_fleet dt) (?ps1, visited @ [(k, advance dt f)], removed @ [f_id f]) fl =
        (ps', (visited @ [(k, advance dt f)]) @ map (\<lambda>(k, f). (k, advance dt f)) fl,
         (removed @ [f_id f]) @
           map (\<lambda>(k, f). f_id f) (filter (\<lambda>(k, f). arrived ?ps1 (advance dt f)) fl))"
      and "map static ps' = map static ?ps1"
      using Cons.IH by blast
    then show ?thesis
      using True g by (simp add: kf step_fleet_pair a)
  next
    case False
    then show ?thesis
      using Cons.IH [of ps "visited @ [(k, advance dt f)]" removed]
      by (simp add: kf step_fleet_pair)
  qed
qed

lemma foldl_delete:
  "foldl (\<lambda>m i. AList.delete i m) fs removed = filter (\<lambda>(k, v). k \<notin> set removed) fs"
proof (induction removed arbitrary: fs)
  case Nil
  show ?case by simp
next
  case (Cons i removed)
  have "foldl (\<lambda>m i. AList.delete i m) fs (i # removed) =
        foldl (\<lambda>m i. AList.delete i m) (AList.delete i fs) removed"
    by simp
  also have "\<dots> = filter (\<lambda>(k, v). k \<notin> set removed) (AList.delete i fs)"
    by (rule Cons.IH)
  also have "\<dots> = filter (\<lambda>(k, v). k \<notin> set (i # removed)) fs"
    unfolding AList.delete_eq filter_filter by (rule filter_cong) auto
  finally show ?case .
qed

lemma step_fleets:
  "fleets (fst (step s dt)) =
     filter (\<lambda>(k, v). k \<notin> set (snd (step s dt))) (map (\<lambda>(k, f). (k, advance dt f)) (fleets s))"
  and step_removed:
  "snd (step s dt) =
     map (\<lambda>(k, f). f_id f) (filter (\<lambda>(k, f). arrived (planets s) (advance dt f)) (fleets s))"
proof -
  obtain ps' where
    "foldl (step_fleet dt) (map (accrue dt) (planets s), [], []) (fleets s) =
      (ps', [] @ map (\<lambda>(k, f). (k, advance dt f)) (fleets s),
       [] @ map (\<lambda>(k, f). f_id f)
         (filter (\<lambda>(k, f). arrived (map (accrue dt) (planets s)) (advance dt f)) (fleets s)))"
    using foldl_step_fleet by blast
  moreover have "arrived (map (accrue dt) (planets s)) f = arrived (planets s) f" for f
    by (rule arrived_static) simp
  ultimately show
    "fleets (fst (step s dt)) =
       filter (\<lambda>(k, v). k \<notin> set (snd (step s dt))) (map (\<lambda>(k, f). (k, advance dt f)) (fleets s))"
    and "snd (step s dt) =
       map (\<lambda>(k, f). f_id f) (filter (\<lambda>(k, f). arrived (planets s) (advance dt f)) (fleets s))"
    by (simp_all add: step_def foldl_delete)
qed

lemma dist_xy_same_y: "dist_xy x1 y x2 y = \<bar>x2 - x1\<bar>"
  by (simp add: dist_xy_def)

lemma step_frame:
  "(k, f') \<in> set (fleets (fst (step s dt))) \<Longrightarrow> \<exists>f. (k, f) \<in> set (fleets s) \<and> f' = advance dt f"
  unfolding step_fleets by auto

lemma steps_frame:
  "(k, f') \<in> set (fleets (steps s dts)) \<Longrightarrow>
     \<exists>f. (k, f) \<in> set (fleets s) \<and>
       f' = f\<lparr> f_x := f_x f + f_vx f * sum_list dts, f_y := f_y f + f_vy f * sum_list dts \<rparr>"
proof (induction dts arbitrary: s)
  case Nil
  then show ?case by simp
next
  case (Cons dt dts)
  then obtain f1 where f1: "(k, f1) \<in> set (fleets (fst (step s dt)))"
    and f': "f' = f1\<lparr> f_x := f_x f1 + f_vx f1 * sum_list dts, f_y := f_y f1 + f_vy f1 * sum_list dts \<rparr>"
    by auto
  from step_frame [OF f1] obtain f where f: "(k, f) \<in> set (fleets s)" and "f1 = advance dt f"
    by blast
  then have "f' = f\<lparr> f_x := f_x f + f_vx f * sum_list (dt # dts),
                     f_y := f_y f + f_vy f * sum_list (dt # dts) \<rparr>"
    using f' by (simp add: advance_def algebra_simps)
  with f show ?case by blast
qed

section \<open>Facts about the room\<close>

lemma step_cfg [simp]: "cfg (fst (step s dt)) = cfg s"
  by (simp add: step_def split: prod.splits)

lemma Room_tick_cfg [simp]: "cfg (sim (fst (Room_tick rm dt nowMs))) = cfg (sim rm)"
proof -
  obtain s' removed where st: "step (sim rm) dt = (s', removed)"
    by (cases "step (sim rm) dt")
  then have "cfg s' = cfg (sim rm)"
    using step_cfg [of "sim rm" dt] by simp
  then show ?thesis
    by (simp add: Room_tick_def st Let_def split: sum.splits)
qed

lemma Room_tick_sent:
  assumes "deltas_sent (snd (Room_tick rm dt nowMs)) \<noteq> 0"
  shows "lastDeltaSent (fst (Room_tick rm dt nowMs)) = nowMs"
    and "deltaHz (cfg (sim rm)) \<noteq> 0"
    and "nowMs - lastDeltaSent rm \<ge> 1000 / deltaHz (cfg (sim rm))"
proof -
  obtain s' removed where st: "step (sim rm) dt = (s', removed)"
    by (cases "step (sim rm) dt")
  then have c: "cfg s' = cfg (sim rm)"
    using step_cfg [of "sim rm" dt] by simp
  show "lastDeltaSent (fst (Room_tick rm dt nowMs)) = nowMs"
    and "deltaHz (cfg (sim rm)) \<noteq> 0"
    and "nowMs - lastDeltaSent rm \<ge> 1000 / deltaHz (cfg (sim rm))"
    using assms
    by (simp_all add: Room_tick_def st c Let_def deltas_sent_def split: sum.splits if_splits)
qed

lemma deltas_sent_le: "deltas_sent out \<le> 1"
  by (simp add: deltas_sent_def split: sum.splits option.splits)

lemma Room_tick_unfold:
  assumes "step (sim rm) dt = (s', removed)"
  shows "Room_tick rm dt nowMs =
     (let changed = (if tick s' mod 4 = 0
                     then foldl (\<lambda>c p. Set_add (p_id p) c) (changedPlanets rm) (planets s')
                     else changedPlanets rm);
          moved = foldl (\<lambda>m kf. AList.update (f_id (snd kf)) (f_x (snd kf), f_y (snd kf)) m)
                    (movedFleets rm) (fleets s');
          rm1 = rm\<lparr> sim := s', changedPlanets := changed, movedFleets := moved \<rparr>
      in if deltaHz (cfg s') = 0 then (rm1, Inr None)
         else if nowMs - lastDeltaSent rm \<ge> 1000 / deltaHz (cfg s')
         then
           (case delta_planets (planets s') changed of
              Inl e \<Rightarrow> (rm1\<lparr> lastDeltaSent := nowMs \<rparr>, Inl e)
            | Inr ds \<Rightarrow>
                (rm1\<lparr> lastDeltaSent := nowMs, changedPlanets := [], movedFleets := [],
                      newFleets := [] \<rparr>,
                 Inr (Some \<lparr> d_tick = tick s', d_planets = ds, d_fleets = moved,
                             d_remove_fleets = removed, d_new_fleets = newFleets rm \<rparr>)))
         else (rm1, Inr None))"
  by (simp add: Room_tick_def assms Let_def split: sum.splits)

lemma sim_ex_room [simp]: "sim (ex_room fs t0) = ex_state 50 fs"
  by (simp add: ex_room_def)

lemma step_ex_state_empty:
  "step (ex_state d []) dt = ((ex_state d [])\<lparr> planets := map (accrue dt) (ex_planets d), tick := Suc 0 \<rparr>, [])"
  by (simp add: step_def ex_state_def)

lemma assignOwner_cases:
  "(assignOwner rm = PLAYER1 \<longleftrightarrow> PLAYER1 \<notin> snd ` set (players rm))"
  "(assignOwner rm = PLAYER2 \<longleftrightarrow> PLAYER1 \<in> snd ` set (players rm) \<and> PLAYER2 \<notin> snd ` set (players rm))"
  "(assignOwner rm = PLAYER3 \<longleftrightarrow>
      {PLAYER1, PLAYER2} \<subseteq> snd ` set (players rm) \<and> PLAYER3 \<notin> snd ` set (players rm))"
  "(assignOwner rm = PLAYER4 \<longleftrightarrow>
      {PLAYER1, PLAYER2, PLAYER3} \<subseteq> snd ` set (players rm) \<and> PLAYER4 \<notin> snd ` set (players rm))"
  "(assignOwner rm = NEUTRAL \<longleftrightarrow> {PLAYER1, PLAYER2, PLAYER3, PLAYER4} \<subseteq> snd ` set (players rm))"
  by (auto simp: assignOwner_def Let_def)

lemma join_owner: "fst (snd (join rm ws)) = assignOwner rm"
  by (simp add: join_def Let_def assignOwner_def)

lemma join_players: "players (fst (join rm ws)) = AList.update ws (assignOwner rm) (players rm)"
  by (simp add: join_def Let_def assignOwner_def)

lemma join_clients: "clients (fst (join rm ws)) = Set_add ws (clients rm)"
  by (simp add: join_def Let_def)


lemma issueOrders_no_target:
  "List.find (\<lambda>p. p_id p = targetId) (planets s) = None \<Longrightarrow>
     issueOrders s ow fromIds targetId pct = ([], s)"
  by (simp add: issueOrders_def)

lemma step_ex_state_arrival:
  "step (ex_state 50 [(1, ex_fleet 50 385)]) (1 / 30) =
     ((ex_state 50 [])\<lparr> planets := [(ex_planets 50 ! 0)\<lparr> p_ships := 40 + 1 / 30 \<rparr>,
                                    (ex_planets 50 ! 1)\<lparr> p_ships := 0 \<rparr>],
                        tick := Suc 0 \<rparr>, [1])"
  by (simp add: step_def step_fleet_pair ex_state_def arrived_def advance_def ex_planets_def
      ex_fleet_def dist_xy_same_y accrue_def resolve_def)

text \<open>
  No decoded message has a key the handler tests before \<open>env.ping\<close>, so the handler leaves
  the room as it is: orders and snapshot requests that arrive on the socket do not reach
  \<open>issueOrdersFrom\<close> or \<open>join\<close>.
\<close>

lemma on_message_unchanged: "on_message rm ws msg = rm"
  by (cases msg) (simp_all add: on_message_def decodeClient_def)

text \<open>A member that joins again never keeps a player seat.\<close>

lemma rejoin_moves_seat:
  assumes "map_of (players rm) ws = Some ow" and "ow \<noteq> NEUTRAL"
  shows "fst (snd (join rm ws)) \<noteq> ow"
proof
  assume "fst (snd (join rm ws)) = ow"
  then have a: "assignOwner rm = ow"
    by (simp add: join_owner)
  have "(ws, ow) \<in> set (players rm)"
    using assms(1) by (rule map_of_SomeD)
  then have "ow \<in> snd ` set (players rm)"
    by force
  then show False
    using a assms(2) assignOwner_cases [of rm] by (cases ow) simp_all
qed

section \<open>Facts about world generation\<close>

lemma candidate_dense:
  "snd (static (fst (candidate dense_cfg n t))) = (82, 82, 18)"
  by (simp add: candidate_def dense_cfg_def manager_cfg_def static_def Let_def split: prod.splits)

lemma not_clear_dense:
  assumes "snd (static p) = (82, 82, 18)" and "snd (static cand) = (82, 82, 18)"
  shows "\<not> clear_of [p] cand"
  using assms by (simp add: clear_of_def static_def dist_xy_def)

lemma place_loop_stuck:
  "snd (static p) = (82, 82, 18) \<Longrightarrow> place_loop fuel dense_cfg t [p] = None"
proof (induction fuel arbitrary: t)
  case 0
  show ?case by simp
next
  case (Suc fuel)
  obtain cand t' where c: "candidate dense_cfg (length [p]) t = (cand, t')"
    by (cases "candidate dense_cfg (length [p]) t")
  then have "snd (static cand) = (82, 82, 18)"
    using candidate_dense [of "length [p]" t] by simp
  then have "\<not> clear_of [p] cand"
    using Suc.prems not_clear_dense by blast
  moreover have "planetCount dense_cfg = 2"
    by (simp add: dense_cfg_def)
  ultimately show ?case
    using c Suc.IH [OF Suc.prems, of t'] by simp
qed

lemma place_loop_dense: "place_loop fuel dense_cfg t [] = None"
proof (cases fuel)
  case 0
  then show ?thesis by simp
next
  case (Suc n)
  obtain cand t' where c: "candidate dense_cfg (length ([] :: Planet list)) t = (cand, t')"
    by (cases "candidate dense_cfg (length ([] :: Planet list)) t")
  then have g: "snd (static cand) = (82, 82, 18)"
    using candidate_dense [of "length ([] :: Planet list)" t] by simp
  have "planetCount dense_cfg = 2"
    by (simp add: dense_cfg_def)
  then show ?thesis
    using c place_loop_stuck [OF g, of n t'] by (simp add: Suc clear_of_def)
qed


















section \<open>Preservation of the ship-count invariant\<close>


















section \<open>Facts about issueOrders\<close>

lemma findIndex_upt:
  "map g xs = [n ..< n + length xs] \<Longrightarrow>
     findIndex (\<lambda>p. g p = i) xs = (if n \<le> i \<and> i < n + length xs then Some (i - n) else None)"
proof (induction xs arbitrary: n)
  case Nil
  then show ?case by simp
next
  case (Cons a xs)
  have "[n ..< n + length (a # xs)] = n # [Suc n ..< Suc n + length xs]"
    using upt_conv_Cons [of n "n + length (a # xs)"] by simp
  with Cons.prems have "g a # map g xs = n # [Suc n ..< Suc n + length xs]"
    by simp
  then have a: "g a = n" and m: "map g xs = [Suc n ..< Suc n + length xs]"
    by simp_all
  show ?case
    using a Cons.IH [OF m] by (auto simp: Suc_diff_Suc)
qed

lemma find_findIndex: "List.find P xs = map_option (nth xs) (findIndex P xs)"
  by (induction xs) (simp_all add: option.map_comp comp_def)

lemma findIndex_ids_ok:
  "ids_ok ps \<Longrightarrow> findIndex (\<lambda>p. p_id p = i) ps = (if i < length ps then Some i else None)"
  using findIndex_upt [of p_id ps 0 i] by (simp add: ids_ok_def)

lemma find_ids_ok:
  "ids_ok ps \<Longrightarrow> List.find (\<lambda>p. p_id p = i) ps = (if i < length ps then Some (ps ! i) else None)"
  by (simp add: find_findIndex findIndex_ids_ok)

lemma ids_ok_nth: "ids_ok ps \<Longrightarrow> k < length ps \<Longrightarrow> p_id (ps ! k) = k"
  unfolding ids_ok_def by (metis add_0 nth_map nth_upt)

text \<open>The fleet a source planet launches at a target.\<close>

lemma issueOrders_body_launch:
  assumes "ids_ok (planets s)" and "i < length (planets s)" and "p_owner (planets s ! i) = ow"
    and "i \<noteq> t" and "0 < \<lfloor>dmul (p_ships (planets s ! i)) (min 1 pct)\<rfloor>"
  shows "\<exists>f. issueOrders_body ow target t pct (created, s) i =
      (created @ [f],
       s\<lparr> planets := (planets s)[i := (planets s ! i)
              \<lparr> p_ships := p_ships (planets s ! i) -
                   of_int \<lfloor>dmul (p_ships (planets s ! i)) (min 1 pct)\<rfloor> \<rparr>],
          fleets := AList.update (nextFleetId s) f (fleets s),
          nextFleetId := Suc (nextFleetId s) \<rparr>) \<and>
      f_ships f = of_int \<lfloor>dmul (p_ships (planets s ! i)) (min 1 pct)\<rfloor> \<and> f_owner f = ow \<and>
      f_fromId f = i \<and> f_toId f = p_id target \<and> f_id f = nextFleetId s"
  using assms
  by (simp add: issueOrders_body_def findIndex_ids_ok ids_ok_nth Let_def)

lemma issueOrders_body_skip:
  assumes "ids_ok (planets s)" and "i < length (planets s)"
    and "i = t \<or> \<lfloor>dmul (p_ships (planets s ! i)) (min 1 pct)\<rfloor> \<le> 0"
  shows "issueOrders_body ow target t pct (created, s) i = (created, s)"
  using assms
  by (auto simp: issueOrders_body_def findIndex_ids_ok ids_ok_nth Let_def)

lemma issueOrders_clamp:
  assumes "1 \<le> pct"
  shows "issueOrders s ow ids t pct = issueOrders s ow ids t 1"
proof -
  have m: "min 1 pct = 1"
    using assms by simp
  have "issueOrders_body ow target t pct = issueOrders_body ow target t 1" for target
    by (intro ext) (simp add: issueOrders_body_def m Let_def split: prod.splits option.splits)
  then show ?thesis
    using assms by (simp add: issueOrders_def split: option.splits)
qed

text \<open>Only ship counts change, so the target is found again.\<close>

lemma map_update_same: "f a = f (xs ! k) \<Longrightarrow> map f (xs[k := a]) = map f xs"
  by (cases "k < length xs") (simp_all add: map_update list_update_same_conv list_update_beyond)

lemma static_ships [simp]: "static (p\<lparr> p_ships := v \<rparr>) = static p"
  by (simp add: static_def)

lemma issueOrders_body_static:
  "map static (planets (snd (issueOrders_body ow target t pct (created, s) i))) = map static (planets s)"
  by (simp add: issueOrders_body_def Let_def map_update_same split: option.splits)

lemma foldl_body_static:
  "map static (planets (snd (foldl (issueOrders_body ow target t pct) (created, s) ids))) =
     map static (planets s)"
proof (induction ids arbitrary: created s)
  case Nil
  show ?case by simp
next
  case (Cons i ids)
  obtain c1 s1 where b: "issueOrders_body ow target t pct (created, s) i = (c1, s1)"
    by (cases "issueOrders_body ow target t pct (created, s) i")
  then have "map static (planets s1) = map static (planets s)"
    using issueOrders_body_static [of ow target t pct created s i] by simp
  then show ?case
    using Cons.IH [of c1 s1] by (simp add: b)
qed

lemma issueOrders_body_target:
  "static t1 = static t2 \<Longrightarrow> issueOrders_body ow t1 t pct = issueOrders_body ow t2 t pct"
  by (intro ext) (simp add: issueOrders_body_def static_def Let_def split: prod.splits option.splits)

lemma find_static:
  "map static ps' = map static ps \<Longrightarrow> List.find (\<lambda>p. p_id p = t) ps = Some target \<Longrightarrow>
     \<exists>target'. List.find (\<lambda>p. p_id p = t) ps' = Some target' \<and> static target' = static target"
proof (induction ps arbitrary: ps')
  case Nil
  then show ?case by simp
next
  case (Cons a ps)
  then obtain a' ps'' where ps': "ps' = a' # ps''" and a: "static a' = static a"
    and m: "map static ps'' = map static ps"
    by (cases ps') auto
  have i: "p_id a' = p_id a"
    using a by (simp add: static_def)
  show ?case
  proof (cases "p_id a = t")
    case True
    then show ?thesis using Cons.prems(2) a i by (simp add: ps')
  next
    case False
    then show ?thesis using Cons.IH [OF m] Cons.prems(2) i by (simp add: ps')
  qed
qed

lemma issueOrders_body_created:
  "issueOrders_body ow target t pct (created, s) i =
     (created @ fst (issueOrders_body ow target t pct ([], s) i),
      snd (issueOrders_body ow target t pct ([], s) i))"
  by (simp add: issueOrders_body_def Let_def split: option.splits)

lemma foldl_body_created:
  "foldl (issueOrders_body ow target t pct) (created, s) ids =
     (created @ fst (foldl (issueOrders_body ow target t pct) ([], s) ids),
      snd (foldl (issueOrders_body ow target t pct) ([], s) ids))"
proof (induction ids arbitrary: created s)
  case Nil
  show ?case by simp
next
  case (Cons i ids)
  obtain c1 s1 where b: "issueOrders_body ow target t pct ([], s) i = (c1, s1)"
    by (cases "issueOrders_body ow target t pct ([], s) i")
  have b': "issueOrders_body ow target t pct (created, s) i = (created @ c1, s1)"
    using issueOrders_body_created [of ow target t pct created s i] by (simp add: b)
  show ?case
    using Cons.IH [of "created @ c1" s1] Cons.IH [of c1 s1] by (simp add: b b')
qed

lemma issueOrders_append:
  "issueOrders s ow (ids1 @ ids2) t pct =
     (case issueOrders s ow ids1 t pct of
        (c1, s1) \<Rightarrow> (case issueOrders s1 ow ids2 t pct of (c2, s2) \<Rightarrow> (c1 @ c2, s2)))"
proof (cases "pct \<le> 0")
  case True
  then show ?thesis by (simp add: issueOrders_def)
next
  case False
  show ?thesis
  proof (cases "List.find (\<lambda>p. p_id p = t) (planets s)")
    case None
    then show ?thesis using False by (simp add: issueOrders_def)
  next
    case (Some target)
    let ?body = "issueOrders_body ow target t pct"
    obtain c1 s1 where f1: "foldl ?body ([], s) ids1 = (c1, s1)"
      by (cases "foldl ?body ([], s) ids1")
    have st: "map static (planets s1) = map static (planets s)"
      using foldl_body_static [of ow target t pct "[]" s ids1] by (simp add: f1)
    obtain target' where t': "List.find (\<lambda>p. p_id p = t) (planets s1) = Some target'"
      and eq: "static target' = static target"
      using find_static [OF st Some] by blast
    have "foldl ?body ([], s) (ids1 @ ids2) = foldl ?body (c1, s1) ids2"
      by (simp add: f1)
    also have "\<dots> = (c1 @ fst (foldl ?body ([], s1) ids2), snd (foldl ?body ([], s1) ids2))"
      by (rule foldl_body_created)
    finally show ?thesis
      using False Some t' issueOrders_body_target [OF eq, of ow t pct]
      by (simp add: issueOrders_def f1 split: prod.splits)
  qed
qed

lemma issueOrders_single:
  assumes "ids_ok (planets s)" and "t < length (planets s)" and "0 < pct"
  shows "issueOrders s ow [i] t pct = issueOrders_body ow (planets s ! t) t pct ([], s) i"
  using assms by (simp add: issueOrders_def find_ids_ok)

lemma ids_ok_ex_planets: "ids_ok (ex_planets d)"
  by (simp add: ids_ok_def ex_planets_def upt_rec)

section \<open>Planet ids stay the array indices\<close>

lemma ids_ok_static:
  assumes "map static ps' = map static ps"
  shows "ids_ok ps' = ids_ok ps"
proof -
  have "map p_id ps' = map (fst \<circ> static) ps'" and "map p_id ps = map (fst \<circ> static) ps"
    by (simp_all add: static_def comp_def)
  then have "map p_id ps' = map p_id ps"
    using assms by (metis map_map)
  moreover have "length ps' = length ps"
    using assms by (metis length_map)
  ultimately show ?thesis
    by (simp add: ids_ok_def)
qed

lemma candidate_id: "p_id (fst (candidate c n t)) = n"
  by (simp add: candidate_def Let_def split: prod.splits)

lemma place_loop_ids:
  "ids_ok ps \<Longrightarrow> place_loop fuel c t ps = Some ps' \<Longrightarrow> ids_ok ps'"
proof (induction fuel arbitrary: t ps)
  case 0
  then show ?case by simp
next
  case (Suc fuel)
  show ?case
  proof (cases "real (length ps) < planetCount c")
    case False
    then show ?thesis using Suc.prems by simp
  next
    case True
    obtain cand t' where c: "candidate c (length ps) t = (cand, t')"
      by (cases "candidate c (length ps) t")
    then have "p_id cand = length ps"
      using candidate_id [of c "length ps" t] by simp
    then have ok: "ids_ok (if clear_of ps cand then ps @ [cand] else ps)"
      using Suc.prems(1) by (simp add: ids_ok_def)
    show ?thesis
    proof (cases "length (if clear_of ps cand then ps @ [cand] else ps) > 2000")
      case True
      then have "ps' = (if clear_of ps cand then ps @ [cand] else ps)"
        using Suc.prems(2) \<open>real (length ps) < planetCount c\<close> c by (simp add: Let_def)
      then show ?thesis using ok by simp
    next
      case False
      then have "place_loop fuel c t' (if clear_of ps cand then ps @ [cand] else ps) = Some ps'"
        using Suc.prems(2) \<open>real (length ps) < planetCount c\<close> c by (simp add: Let_def)
      then show ?thesis
        using Suc.IH [OF ok] by blast
    qed
  qed
qed

lemma static_make_base [simp]: "static (make_base ow p) = static p"
  by (simp add: static_def make_base_def)

lemma assign_bases_static:
  "assign_bases c ps = Inr ps' \<Longrightarrow> map static ps' = map static ps"
  by (auto simp: assign_bases_def Let_def map_update_same split: if_splits prod.splits)

lemma new_SimState_ids:
  assumes "new_SimState fuel c = Some (Inr s)"
  shows "ids_ok (planets s)"
proof -
  obtain ps where i: "initMap fuel c = Some (Inr ps)" and s: "planets s = ps"
  proof (cases "initMap fuel c")
    case None
    then show ?thesis using assms by (simp add: new_SimState_def)
  next
    case (Some res)
    then show ?thesis
      using assms that by (cases res) (auto simp: new_SimState_def)
  qed
  obtain ps0 where p: "place_loop fuel c (rand_init (seed c)) [] = Some ps0"
    and a: "assign_bases c ps0 = Inr ps"
    using i by (auto simp: initMap_def)
  have "ids_ok ps0"
    using place_loop_ids [OF _ p] by (simp add: ids_ok_def)
  then show ?thesis
    using ids_ok_static [OF assign_bases_static [OF a]] s by simp
qed

lemma issueOrders_static:
  "map static (planets (snd (issueOrders s ow ids t pct))) = map static (planets s)"
  by (simp add: issueOrders_def foldl_body_static split: option.splits)

lemma step_static: "map static (planets (fst (step s dt))) = map static (planets s)"
proof -
  obtain ps' fs' rm' where
    f: "foldl (step_fleet dt) (map (accrue dt) (planets s), [], []) (fleets s) = (ps', fs', rm')"
    and m: "map static ps' = map static (map (accrue dt) (planets s))"
    using foldl_step_fleet [of dt "map (accrue dt) (planets s)" "[]" "[]" "fleets s"] by blast
  have "planets (fst (step s dt)) = ps'"
    by (simp add: step_def f)
  then show ?thesis
    using m by simp
qed

lemma reachable_ids_ok: "reachable c s \<Longrightarrow> ids_ok (planets s)"
proof (induction rule: reachable.induct)
  case (generated fuel s)
  then show ?case by (rule new_SimState_ids)
next
  case (ordered s ow fromIds targetId pct)
  then show ?case using ids_ok_static [OF issueOrders_static] by blast
next
  case (stepped s dt)
  then show ?case using ids_ok_static [OF step_static] by blast
qed

section \<open>An order and two steps in the generated line world\<close>





section \<open>C1: combat resolution\<close>

text \<open>
  Claim C1. When a fleet's advanced position lies within its destination planet's radius, the
  loop body of \<open>step\<close> resolves it against the ship count \<open>d\<close> the planet holds at that
  moment: a hostile fleet of \<open>f \<le> d\<close> ships leaves the owner unchanged and \<open>d - f\<close> ships
  (50 against 50 leaves 0), a hostile fleet of \<open>f > d\<close> ships flips the owner to the attacker
  and leaves \<open>f - d\<close> ships (51 against 50 leaves 1), a fleet of the planet's owner adds \<open>f\<close>.
  Nothing else of the planet and no other planet changes, the fleet's id is pushed on
  \<open>removed\<close>, and the fleet is gone from the fleet map when \<open>step\<close> returns. With a single
  fleet in flight, the planets \<open>step\<close> returns are those of the loop body run on the planets
  after production.
\<close>

theorem combat_resolution_exact:
  "(arrived ps (advance dt f) \<longrightarrow>
      (\<exists>tgt'. step_fleet dt (ps, visited, removed) (k, f) =
           (ps[f_toId f := tgt'], visited @ [(k, advance dt f)], removed @ [f_id f]) \<and>
        (f_owner f \<noteq> p_owner (ps ! f_toId f) \<and> f_ships f \<le> p_ships (ps ! f_toId f) \<longrightarrow>
           tgt' = (ps ! f_toId f)\<lparr> p_ships := p_ships (ps ! f_toId f) - f_ships f \<rparr>) \<and>
        (f_owner f \<noteq> p_owner (ps ! f_toId f) \<and> p_ships (ps ! f_toId f) < f_ships f \<longrightarrow>
           tgt' = (ps ! f_toId f)\<lparr> p_owner := f_owner f,
                                   p_ships := f_ships f - p_ships (ps ! f_toId f) \<rparr>) \<and>
        (f_owner f = p_owner (ps ! f_toId f) \<longrightarrow>
           tgt' = (ps ! f_toId f)\<lparr> p_ships := p_ships (ps ! f_toId f) + f_ships f \<rparr>)))
   \<and> ((k, f) \<in> set (fleets s) \<and> f_id f = k \<and> arrived (planets s) (advance dt f) \<longrightarrow>
        k \<in> set (snd (step s dt)) \<and> k \<notin> fst ` set (fleets (fst (step s dt))))
   \<and> (fleets s = [(k, f)] \<longrightarrow>
        planets (fst (step s dt)) =
          fst (step_fleet dt (map (accrue dt) (planets s), [], []) (k, f)))"
proof (intro conjI impI)
  assume "arrived ps (advance dt f)"
  then show "\<exists>tgt'. step_fleet dt (ps, visited, removed) (k, f) =
           (ps[f_toId f := tgt'], visited @ [(k, advance dt f)], removed @ [f_id f]) \<and>
        (f_owner f \<noteq> p_owner (ps ! f_toId f) \<and> f_ships f \<le> p_ships (ps ! f_toId f) \<longrightarrow>
           tgt' = (ps ! f_toId f)\<lparr> p_ships := p_ships (ps ! f_toId f) - f_ships f \<rparr>) \<and>
        (f_owner f \<noteq> p_owner (ps ! f_toId f) \<and> p_ships (ps ! f_toId f) < f_ships f \<longrightarrow>
           tgt' = (ps ! f_toId f)\<lparr> p_owner := f_owner f,
                                   p_ships := f_ships f - p_ships (ps ! f_toId f) \<rparr>) \<and>
        (f_owner f = p_owner (ps ! f_toId f) \<longrightarrow>
           tgt' = (ps ! f_toId f)\<lparr> p_ships := p_ships (ps ! f_toId f) + f_ships f \<rparr>)"
    by (intro exI [of _ "resolve (advance dt f) (ps ! f_toId f)"])
       (simp add: step_fleet_pair resolve_def Let_def)
next
  assume h: "(k, f) \<in> set (fleets s) \<and> f_id f = k \<and> arrived (planets s) (advance dt f)"
  then have "(k, f) \<in> set (filter (\<lambda>(k, f). arrived (planets s) (advance dt f)) (fleets s))"
    by simp
  then have "(\<lambda>(k, f). f_id f) (k, f) \<in> set (snd (step s dt))"
    unfolding step_removed set_map by (rule imageI)
  then show r: "k \<in> set (snd (step s dt))"
    using h by simp
  show "k \<notin> fst ` set (fleets (fst (step s dt)))"
    using r unfolding step_fleets by auto
next
  assume "fleets s = [(k, f)]"
  then show "planets (fst (step s dt)) =
      fst (step_fleet dt (map (accrue dt) (planets s), [], []) (k, f))"
    by (simp add: step_def split: prod.splits)
qed

theorem combat_resolution_exact_witness:
  "arrived (ex_planets 50) (advance (1 / 30) (ex_fleet 50 385)) \<and>
   fst (step_fleet (1 / 30) (ex_planets 50, [], []) (1, ex_fleet 50 385)) ! 1 =
     (ex_planets 50 ! 1)\<lparr> p_ships := 0 \<rparr> \<and>
   fst (step_fleet (1 / 30) (ex_planets 50, [], []) (1, ex_fleet 51 385)) ! 1 =
     (ex_planets 50 ! 1)\<lparr> p_owner := PLAYER1, p_ships := 1 \<rparr> \<and>
   1 \<in> set (snd (step (ex_state 50 [(1, ex_fleet 50 385)]) (1 / 30))) \<and>
   1 \<notin> fst ` set (fleets (fst (step (ex_state 50 [(1, ex_fleet 50 385)]) (1 / 30)))) \<and>
   planets (fst (step (ex_state 50 [(1, ex_fleet 50 385)]) (1 / 30))) ! 1 =
     (ex_planets 50 ! 1)\<lparr> p_ships := 0 \<rparr>"
proof -
  let ?ps = "ex_planets 50"
  let ?s = "ex_state 50 [(1, ex_fleet 50 385)]"
  have a: "arrived ?ps (advance (1 / 30) (ex_fleet n 385))" for n
    by (simp add: arrived_def advance_def ex_planets_def ex_fleet_def dist_xy_same_y)
  have to: "f_toId (ex_fleet n 385) = 1" for n
    by (simp add: ex_fleet_def)
  have h50: "f_owner (ex_fleet 50 385) \<noteq> p_owner (?ps ! 1) \<and> f_ships (ex_fleet 50 385) \<le> p_ships (?ps ! 1)"
    by (simp add: ex_planets_def ex_fleet_def)
  have h51: "f_owner (ex_fleet 51 385) \<noteq> p_owner (?ps ! 1) \<and> p_ships (?ps ! 1) < f_ships (ex_fleet 51 385)"
    by (simp add: ex_planets_def ex_fleet_def)
  have hs: "(1, ex_fleet 50 385) \<in> set (fleets ?s) \<and> f_id (ex_fleet 50 385) = 1 \<and>
      arrived (planets ?s) (advance (1 / 30) (ex_fleet 50 385))"
    using a [of 50] by (simp add: ex_state_def ex_fleet_def)
  have len: "1 < length ?ps"
    by (simp add: ex_planets_def)
  have c50: "fst (step_fleet (1 / 30) (?ps, [], []) (1, ex_fleet 50 385)) ! 1 =
      (?ps ! 1)\<lparr> p_ships := 0 \<rparr>"
    using combat_resolution_exact [of ?ps "1 / 30" "ex_fleet 50 385" "[]" "[]" 1 ?s] a [of 50] h50 len
    by (auto simp: to ex_planets_def ex_fleet_def)
  have c51: "fst (step_fleet (1 / 30) (?ps, [], []) (1, ex_fleet 51 385)) ! 1 =
      (?ps ! 1)\<lparr> p_owner := PLAYER1, p_ships := 1 \<rparr>"
    using combat_resolution_exact [of ?ps "1 / 30" "ex_fleet 51 385" "[]" "[]" 1 ?s] a [of 51] h51 len
    by (auto simp: to ex_planets_def ex_fleet_def)
  have rm: "1 \<in> set (snd (step ?s (1 / 30))) \<and> 1 \<notin> fst ` set (fleets (fst (step ?s (1 / 30))))"
    using combat_resolution_exact [of ?ps "1 / 30" "ex_fleet 50 385" "[]" "[]" 1 ?s] hs
    by blast
  have pl: "planets (fst (step ?s (1 / 30))) ! 1 = (ex_planets 50 ! 1)\<lparr> p_ships := 0 \<rparr>"
    unfolding step_ex_state_arrival by (simp add: ex_state_def)
  show ?thesis
    using a [of 50] c50 c51 rm pl by blast
qed

section \<open>C2: order conservation and fraction clamping\<close>

text \<open>
  Claim C2. In a state whose planet ids are the array indices (every reachable state, by
  \<open>reachable_ids_ok\<close>), an order of owner \<open>ow\<close> from its planet \<open>i\<close> (holding \<open>s\<close> ships) to
  an existing planet \<open>t\<close> with fraction \<open>pct\<close>: with \<open>send = floor (s * min 1 pct)\<close>, the product
  being the one the code computes (\<open>dmul\<close>), if \<open>pct > 0\<close>, \<open>i \<noteq> t\<close> and \<open>send > 0\<close> it debits
  exactly \<open>send\<close> from planet \<open>i\<close>, changes no other planet, and creates exactly one fleet,
  which carries \<open>send\<close> ships of \<open>ow\<close> from \<open>i\<close> to \<open>t\<close>; if \<open>pct \<le> 0\<close>, or \<open>i = t\<close>, or
  \<open>send \<le> 0\<close>, it creates no fleet and changes nothing. A fraction of 1 or more (1.5, say)
  behaves as 1. The computed product is the exact one whenever that is a double; it can
  differ otherwise: with 3 ships and \<open>pct\<close> the double nearest to 1/3 the exact product is
  below 1 and the computed one is 1, so one ship is sent. An order with several sources is
  the sequence of the orders of its sources, each on the state the one before left. The clamp
  is the \<open>Math.min(1, pct)\<close> of \<open>issueOrders\<close>; the handler's own clamp is on a branch that
  no decoded message takes (\<open>on_message_unchanged\<close>).
\<close>

theorem order_conservation:
  assumes "ids_ok (planets s)" and "t < length (planets s)"
    and "i < length (planets s)" and "p_owner (planets s ! i) = ow"
  shows
    "(0 < pct \<and> i \<noteq> t \<and> 0 < \<lfloor>dmul (p_ships (planets s ! i)) (min 1 pct)\<rfloor> \<longrightarrow>
        (\<exists>f. issueOrders s ow [i] t pct =
               ([f],
                s\<lparr> planets := (planets s)[i := (planets s ! i)
                       \<lparr> p_ships := p_ships (planets s ! i) -
                            of_int \<lfloor>dmul (p_ships (planets s ! i)) (min 1 pct)\<rfloor> \<rparr>],
                   fleets := AList.update (nextFleetId s) f (fleets s),
                   nextFleetId := Suc (nextFleetId s) \<rparr>) \<and>
             f_ships f = of_int \<lfloor>dmul (p_ships (planets s ! i)) (min 1 pct)\<rfloor> \<and>
             f_owner f = ow \<and> f_fromId f = i \<and> f_toId f = t \<and> f_id f = nextFleetId s))
     \<and> (pct \<le> 0 \<or> i = t \<or> \<lfloor>dmul (p_ships (planets s ! i)) (min 1 pct)\<rfloor> \<le> 0 \<longrightarrow>
          issueOrders s ow [i] t pct = ([], s))
     \<and> (1 \<le> pct \<longrightarrow> issueOrders s ow ids t pct = issueOrders s ow ids t 1)
     \<and> (is_double (p_ships (planets s ! i) * min 1 pct) \<longrightarrow>
          dmul (p_ships (planets s ! i)) (min 1 pct) = p_ships (planets s ! i) * min 1 pct)
     \<and> issueOrders s ow (ids1 @ ids2) t pct =
          (case issueOrders s ow ids1 t pct of
             (c1, s1) \<Rightarrow> (case issueOrders s1 ow ids2 t pct of (c2, s2) \<Rightarrow> (c1 @ c2, s2)))"
proof (intro conjI impI)
  assume a: "0 < pct \<and> i \<noteq> t \<and> 0 < \<lfloor>dmul (p_ships (planets s ! i)) (min 1 pct)\<rfloor>"
  have "p_id (planets s ! t) = t"
    using assms(1,2) by (rule ids_ok_nth)
  then show "\<exists>f. issueOrders s ow [i] t pct =
               ([f],
                s\<lparr> planets := (planets s)[i := (planets s ! i)
                       \<lparr> p_ships := p_ships (planets s ! i) -
                            of_int \<lfloor>dmul (p_ships (planets s ! i)) (min 1 pct)\<rfloor> \<rparr>],
                   fleets := AList.update (nextFleetId s) f (fleets s),
                   nextFleetId := Suc (nextFleetId s) \<rparr>) \<and>
             f_ships f = of_int \<lfloor>dmul (p_ships (planets s ! i)) (min 1 pct)\<rfloor> \<and>
             f_owner f = ow \<and> f_fromId f = i \<and> f_toId f = t \<and> f_id f = nextFleetId s"
    using a issueOrders_body_launch [OF assms(1,3,4), of t pct "planets s ! t" "[]"]
    by (simp add: issueOrders_single [OF assms(1,2)])
next
  assume a: "pct \<le> 0 \<or> i = t \<or> \<lfloor>dmul (p_ships (planets s ! i)) (min 1 pct)\<rfloor> \<le> 0"
  show "issueOrders s ow [i] t pct = ([], s)"
  proof (cases "pct \<le> 0")
    case True
    then show ?thesis by (simp add: issueOrders_def)
  next
    case False
    then have "i = t \<or> \<lfloor>dmul (p_ships (planets s ! i)) (min 1 pct)\<rfloor> \<le> 0" and "0 < pct"
      using a by simp_all
    then show ?thesis
      using issueOrders_body_skip [OF assms(1,3), of t pct ow "planets s ! t" "[]"]
      by (simp add: issueOrders_single [OF assms(1,2)])
  qed
next
  assume "1 \<le> pct"
  then show "issueOrders s ow ids t pct = issueOrders s ow ids t 1"
    by (rule issueOrders_clamp)
next
  assume "is_double (p_ships (planets s ! i) * min 1 pct)"
  then show "dmul (p_ships (planets s ! i)) (min 1 pct) = p_ships (planets s ! i) * min 1 pct"
    by (rule dmul_exact)
next
  show "issueOrders s ow (ids1 @ ids2) t pct =
          (case issueOrders s ow ids1 t pct of
             (c1, s1) \<Rightarrow> (case issueOrders s1 ow ids2 t pct of (c2, s2) \<Rightarrow> (c1 @ c2, s2)))"
    by (rule issueOrders_append)
qed

theorem order_conservation_witness:
  "ids_ok (planets (ex_state 50 [])) \<and> 1 < length (planets (ex_state 50 [])) \<and>
   0 < length (planets (ex_state 50 [])) \<and> p_owner (planets (ex_state 50 []) ! 0) = PLAYER1 \<and>
   (0 :: real) < 1 / 2 \<and> (0 :: nat) \<noteq> 1 \<and>
   \<lfloor>dmul (p_ships (planets (ex_state 50 []) ! 0)) (min 1 (1 / 2))\<rfloor> = 20 \<and>
   (\<exists>f. issueOrders (ex_state 50 []) PLAYER1 [0] 1 (1 / 2) =
          ([f], (ex_state 50 [])\<lparr> planets := (ex_planets 50)[0 := (ex_planets 50 ! 0)\<lparr> p_ships := 20 \<rparr>],
                                  fleets := [(2, f)], nextFleetId := 3 \<rparr>) \<and>
        f_ships f = 20 \<and> f_owner f = PLAYER1 \<and> f_fromId f = 0 \<and> f_toId f = 1 \<and> f_id f = 2) \<and>
   issueOrders (ex_state 50 []) PLAYER1 [0] 1 (3 / 2) = issueOrders (ex_state 50 []) PLAYER1 [0] 1 1 \<and>
   issueOrders (ex_state 50 []) PLAYER1 [0] 0 (1 / 2) = ([], ex_state 50 []) \<and>
   issueOrders (ex_state 50 []) PLAYER1 [0] 1 0 = ([], ex_state 50 []) \<and>
   is_double (p_ships (planets (ex_state 50 []) ! 0) * min 1 (1 / 2)) \<and>
   dmul (p_ships (planets (ex_state 50 []) ! 0)) (min 1 (1 / 2)) =
     p_ships (planets (ex_state 50 []) ! 0) * min 1 (1 / 2) \<and>
   p_owner (planets (ex_state 3 []) ! 1) = NEUTRAL \<and> 0 < third \<and>
   \<lfloor>3 * third\<rfloor> = 0 \<and>
   \<lfloor>dmul (p_ships (planets (ex_state 3 []) ! 1)) (min 1 third)\<rfloor> = 1 \<and>
   (\<exists>f. issueOrders (ex_state 3 []) NEUTRAL [1] 0 third =
          ([f], (ex_state 3 [])\<lparr> planets := (ex_planets 3)[1 := (ex_planets 3 ! 1)\<lparr> p_ships := 2 \<rparr>],
                                 fleets := [(2, f)], nextFleetId := 3 \<rparr>) \<and>
        f_ships f = 1 \<and> f_owner f = NEUTRAL \<and> f_fromId f = 1 \<and> f_toId f = 0 \<and> f_id f = 2)"
proof -
  let ?s = "ex_state 50 []"
  let ?s3 = "ex_state 3 []"
  have h: "ids_ok (planets ?s)" "1 < length (planets ?s)" "0 < length (planets ?s)"
    "p_owner (planets ?s ! 0) = PLAYER1"
    by (simp_all add: ex_state_def ids_ok_ex_planets) (simp_all add: ex_planets_def)
  have h3: "ids_ok (planets ?s3)" "0 < length (planets ?s3)" "1 < length (planets ?s3)"
    "p_owner (planets ?s3 ! 1) = NEUTRAL"
    by (simp_all add: ex_state_def ids_ok_ex_planets) (simp_all add: ex_planets_def)
  have send: "\<lfloor>dmul (p_ships (planets ?s ! 0)) (min 1 (1 / 2))\<rfloor> = 20"
    by (simp add: ex_state_def ex_planets_def dmul_40_half)
  have send3: "\<lfloor>dmul (p_ships (planets ?s3 ! 1)) (min 1 third)\<rfloor> = 1"
    using third_bounds by (simp add: ex_state_def ex_planets_def dmul_3_third)
  have g: "(0 :: real) < 1 / 2 \<and> (0 :: nat) \<noteq> 1 \<and>
      0 < \<lfloor>dmul (p_ships (planets ?s ! 0)) (min 1 (1 / 2))\<rfloor>"
    unfolding send by simp
  have g3: "0 < third \<and> (1 :: nat) \<noteq> 0 \<and>
      0 < \<lfloor>dmul (p_ships (planets ?s3 ! 1)) (min 1 third)\<rfloor>"
    unfolding send3 using third_bounds by simp
  note t = order_conservation [OF h, of "1 / 2" "[0]" "[]" "[]"]
  note t2 = order_conservation [OF h, of "3 / 2" "[0]" "[]" "[]"]
  note t3 = order_conservation [OF h3, of third "[1]" "[]" "[]"]
  from t g have "\<exists>f. issueOrders ?s PLAYER1 [0] 1 (1 / 2) =
               ([f],
                ?s\<lparr> planets := (planets ?s)[0 := (planets ?s ! 0)
                       \<lparr> p_ships := p_ships (planets ?s ! 0) -
                            of_int \<lfloor>dmul (p_ships (planets ?s ! 0)) (min 1 (1 / 2))\<rfloor> \<rparr>],
                   fleets := AList.update (nextFleetId ?s) f (fleets ?s),
                   nextFleetId := Suc (nextFleetId ?s) \<rparr>) \<and>
             f_ships f = of_int \<lfloor>dmul (p_ships (planets ?s ! 0)) (min 1 (1 / 2))\<rfloor> \<and>
             f_owner f = PLAYER1 \<and> f_fromId f = 0 \<and> f_toId f = 1 \<and> f_id f = nextFleetId ?s"
    by blast
  then have ex: "\<exists>f. issueOrders ?s PLAYER1 [0] 1 (1 / 2) =
          ([f], ?s\<lparr> planets := (ex_planets 50)[0 := (ex_planets 50 ! 0)\<lparr> p_ships := 20 \<rparr>],
                    fleets := [(2, f)], nextFleetId := 3 \<rparr>) \<and>
        f_ships f = 20 \<and> f_owner f = PLAYER1 \<and> f_fromId f = 0 \<and> f_toId f = 1 \<and> f_id f = 2"
    unfolding send by (simp add: ex_state_def ex_planets_def)
  from t3 g3 have "\<exists>f. issueOrders ?s3 NEUTRAL [1] 0 third =
               ([f],
                ?s3\<lparr> planets := (planets ?s3)[1 := (planets ?s3 ! 1)
                       \<lparr> p_ships := p_ships (planets ?s3 ! 1) -
                            of_int \<lfloor>dmul (p_ships (planets ?s3 ! 1)) (min 1 third)\<rfloor> \<rparr>],
                   fleets := AList.update (nextFleetId ?s3) f (fleets ?s3),
                   nextFleetId := Suc (nextFleetId ?s3) \<rparr>) \<and>
             f_ships f = of_int \<lfloor>dmul (p_ships (planets ?s3 ! 1)) (min 1 third)\<rfloor> \<and>
             f_owner f = NEUTRAL \<and> f_fromId f = 1 \<and> f_toId f = 0 \<and> f_id f = nextFleetId ?s3"
    by blast
  then have ex3: "\<exists>f. issueOrders ?s3 NEUTRAL [1] 0 third =
          ([f], ?s3\<lparr> planets := (ex_planets 3)[1 := (ex_planets 3 ! 1)\<lparr> p_ships := 2 \<rparr>],
                     fleets := [(2, f)], nextFleetId := 3 \<rparr>) \<and>
        f_ships f = 1 \<and> f_owner f = NEUTRAL \<and> f_fromId f = 1 \<and> f_toId f = 0 \<and> f_id f = 2"
    unfolding send3 by (simp add: ex_state_def ex_planets_def)
  from t2 have cl: "issueOrders ?s PLAYER1 [0] 1 (3 / 2) = issueOrders ?s PLAYER1 [0] 1 1"
    by simp
  from order_conservation [OF h(1,3,3,4), of "1 / 2" "[0]" "[]" "[]"]
  have same: "issueOrders ?s PLAYER1 [0] 0 (1 / 2) = ([], ?s)"
    by simp
  from order_conservation [OF h, of 0 "[0]" "[]" "[]"]
  have zero: "issueOrders ?s PLAYER1 [0] 1 0 = ([], ?s)"
    by simp
  have d: "is_double (p_ships (planets ?s ! 0) * min 1 (1 / 2))"
    using round_double_20 by (simp add: ex_state_def ex_planets_def is_double_def)
  with t have ex_prod: "dmul (p_ships (planets ?s ! 0)) (min 1 (1 / 2)) =
      p_ships (planets ?s ! 0) * min 1 (1 / 2)"
    by blast
  have a: "(0 :: real) < 1 / 2" "(0 :: nat) \<noteq> 1"
    by simp_all
  show ?thesis
    using h h3(4) send send3 ex ex3 cl same zero d ex_prod third_bounds(1) floor_3_third a
    by - (intro conjI; assumption)
qed

section \<open>C3: an order naming a missing planet\<close>

text \<open>
  Claim C3 fails on the code. \<open>issueOrdersFrom\<close> stages every source id and the target id in
  \<open>changedPlanets\<close> without checking that the planet exists. In the two-planet room, the
  seated connection 7 orders from planet 0 to the missing planet 99: the simulation is
  untouched, \<open>changedPlanets\<close> becomes \<open>[0, 99]\<close>, and the next \<open>Room.tick\<close> whose gate is
  open throws a TypeError while it builds the Delta. The throw happens before the accumulator
  is cleared, so the next tick whose gate is open throws again.
\<close>

theorem missing_target_tick_throws:
  "sim (issueOrdersFrom (ex_room [] 0) 7 [0] 99 (1 / 2)) = sim (ex_room [] 0) \<and>
   changedPlanets (issueOrdersFrom (ex_room [] 0) 7 [0] 99 (1 / 2)) = [0, 99] \<and>
   snd (Room_tick (issueOrdersFrom (ex_room [] 0) 7 [0] 99 (1 / 2)) (1 / 30) 1000) = Inl TypeError \<and>
   snd (Room_tick (fst (Room_tick (issueOrdersFrom (ex_room [] 0) 7 [0] 99 (1 / 2)) (1 / 30) 1000))
          (1 / 30) 2000) = Inl TypeError"
proof -
  let ?rm = "(ex_room [] 0)\<lparr> changedPlanets := [0, 99] \<rparr>"
  let ?s1 = "(ex_state 50 [])\<lparr> planets := map (accrue (1 / 30)) (ex_planets 50), tick := Suc 0 \<rparr>"
  have nf: "List.find (\<lambda>p. p_id p = 99) (planets (sim (ex_room [] 0))) = None"
    by (simp add: ex_state_def ex_planets_def)
  have io: "issueOrdersFrom (ex_room [] 0) 7 [0] 99 (1 / 2) = ?rm"
    unfolding issueOrdersFrom_def issueOrders_no_target [OF nf]
    by (simp add: ex_room_def Set_add_def)
  have st: "step (sim ?rm) (1 / 30) = (?s1, [])"
    by (simp add: step_ex_state_empty)
  have t1: "Room_tick ?rm (1 / 30) 1000 = (?rm\<lparr> sim := ?s1, lastDeltaSent := 1000 \<rparr>, Inl TypeError)"
    unfolding Room_tick_unfold [OF st]
    by (simp add: ex_room_def Let_def ex_state_def manager_cfg_def DELTA_HZ_def ex_planets_def)
  have st2: "step (sim (?rm\<lparr> sim := ?s1, lastDeltaSent := 1000 \<rparr>)) (1 / 30) =
      (?s1\<lparr> planets := map (accrue (1 / 30)) (planets ?s1), tick := Suc (Suc 0) \<rparr>, [])"
    by (simp add: step_def ex_state_def)
  have t2: "snd (Room_tick (?rm\<lparr> sim := ?s1, lastDeltaSent := 1000 \<rparr>) (1 / 30) 2000) = Inl TypeError"
    unfolding Room_tick_unfold [OF st2]
    by (simp add: ex_room_def Let_def ex_state_def manager_cfg_def DELTA_HZ_def ex_planets_def)
  show ?thesis
    unfolding io t1 using t2 by simp
qed

section \<open>C4: removed fleets in a Delta\<close>

text \<open>
  Claim C4 fails on the code. \<open>Room.tick\<close> puts into \<open>remove_fleets\<close> only the ids that the
  \<open>step\<close> of the same call removed. In the two-planet room with \<open>lastDeltaSent = 990\<close>, fleet
  1 resolves during the tick at 1000, whose gate is closed; the tick at 1060 broadcasts a
  Delta whose \<open>remove_fleets\<close> is empty, although fleet 1 resolved since the last broadcast.
\<close>

theorem resolved_fleet_missing_from_delta:
  "fst ` set (fleets (sim (ex_room [(1, ex_fleet 50 385)] 990))) = {1} \<and>
   snd (Room_tick (ex_room [(1, ex_fleet 50 385)] 990) (1 / 30) 1000) = Inr None \<and>
   fleets (sim (fst (Room_tick (ex_room [(1, ex_fleet 50 385)] 990) (1 / 30) 1000))) = [] \<and>
   (\<exists>d. snd (Room_tick (fst (Room_tick (ex_room [(1, ex_fleet 50 385)] 990) (1 / 30) 1000))
             (1 / 30) 1060) = Inr (Some d) \<and>
        d_remove_fleets d = [])"
proof -
  let ?rm = "ex_room [(1, ex_fleet 50 385)] 990"
  let ?s1 = "(ex_state 50 [])\<lparr> planets := [(ex_planets 50 ! 0)\<lparr> p_ships := 40 + 1 / 30 \<rparr>,
                                    (ex_planets 50 ! 1)\<lparr> p_ships := 0 \<rparr>],
                        tick := Suc 0 \<rparr>"
  have st1: "step (sim ?rm) (1 / 30) = (?s1, [1])"
    by (simp only: sim_ex_room step_ex_state_arrival)
  have t1: "Room_tick ?rm (1 / 30) 1000 = (?rm\<lparr> sim := ?s1 \<rparr>, Inr None)"
    unfolding Room_tick_unfold [OF st1]
    by (simp add: ex_room_def Let_def ex_state_def manager_cfg_def DELTA_HZ_def)
  have st2: "step (sim (?rm\<lparr> sim := ?s1 \<rparr>)) (1 / 30) =
      (?s1\<lparr> planets := map (accrue (1 / 30)) (planets ?s1), tick := Suc (Suc 0) \<rparr>, [])"
    by (simp add: step_def ex_state_def)
  have t2: "\<exists>d. snd (Room_tick (?rm\<lparr> sim := ?s1 \<rparr>) (1 / 30) 1060) = Inr (Some d) \<and>
      d_remove_fleets d = []"
    unfolding Room_tick_unfold [OF st2]
    by (simp add: ex_room_def Let_def ex_state_def manager_cfg_def DELTA_HZ_def)
  have k: "fst ` set (fleets (sim ?rm)) = {1}"
    by (simp add: ex_state_def)
  show ?thesis
    using k t2 unfolding t1 by (simp add: ex_state_def)
qed

section \<open>C5: termination of the placement loop\<close>

text \<open>
  Claim C5 fails on the code. The placement loop counts placed planets, not attempts: its only
  exits are \<open>planets.length >= planetCount\<close> and \<open>planets.length > 2000\<close>. For \<open>dense_cfg\<close>
  the first candidate is placed and every later candidate is the same circle, which is
  rejected, so the loop does not end with any amount of fuel and \<open>new SimState\<close> never
  returns. (And with \<open>planetCount = 0\<close> and \<open>numPlayers = 0\<close> the block after the loop reads
  \<open>this.planets[0]\<close> of an empty array and throws.)
\<close>

theorem placement_never_ends:
  "(\<forall>fuel. place_loop fuel dense_cfg (rand_init (seed dense_cfg)) [] = None) \<and>
   (\<forall>fuel. new_SimState fuel dense_cfg = None) \<and>
   initMap 1 (manager_cfg\<lparr> planetCount := 0, numPlayers := 0 \<rparr>) = Some (Inl TypeError)"
proof (intro conjI allI)
  show "initMap 1 (manager_cfg\<lparr> planetCount := 0, numPlayers := 0 \<rparr>) = Some (Inl TypeError)"
    by (simp add: initMap_def assign_bases_def farthest_pair_def index_pairs_def)
qed (simp_all add: new_SimState_def initMap_def place_loop_dense)

section \<open>C6: seat assignment\<close>




section \<open>C7: joining twice\<close>

text \<open>
  Claim C7 fails on the code. \<open>assignOwner\<close> counts the caller's own seat as taken, so a
  second call of \<open>Room.join\<close> for the same connection moves it to the next free seat.
  Connection 7 joins the empty room as PLAYER1; on the second call of \<open>join\<close> it becomes
  PLAYER2 (\<open>rejoin_moves_seat\<close>: no member seated as a player keeps its seat when it
  joins again). The room still has one membership entry and one seat-map entry for it.
  The calls are calls of \<open>Room.join\<close> itself; a message that arrives on the socket does not
  reach it (\<open>on_message_unchanged\<close>).
\<close>

theorem rejoin_changes_seat:
  "fst (snd (join empty_room 7)) = PLAYER1 \<and>
   fst (snd (join (fst (join empty_room 7)) 7)) = PLAYER2 \<and>
   players (fst (join (fst (join empty_room 7)) 7)) = [(7, PLAYER2)] \<and>
   clients (fst (join (fst (join empty_room 7)) 7)) = [7]"
proof -
  have a1: "assignOwner empty_room = PLAYER1"
    by (simp add: assignOwner_def Let_def empty_room_def)
  have p1: "players (fst (join empty_room 7)) = [(7, PLAYER1)]"
    by (simp add: join_players a1) (simp add: empty_room_def)
  have c1: "clients (fst (join empty_room 7)) = [7]"
    by (simp add: join_clients Set_add_def empty_room_def)
  have a2: "assignOwner (fst (join empty_room 7)) = PLAYER2"
    by (simp add: assignOwner_def Let_def p1)
  have p2: "players (fst (join (fst (join empty_room 7)) 7)) = [(7, PLAYER2)]"
    unfolding join_players [of "fst (join empty_room 7)"] a2 p1 by simp
  have c2: "clients (fst (join (fst (join empty_room 7)) 7)) = [7]"
    unfolding join_clients [of "fst (join empty_room 7)"] c1 by (simp add: Set_add_def)
  show ?thesis
    by (simp add: join_owner a1 a2 p2 c2)
qed

section \<open>C8: Delta throttling\<close>

text \<open>
  Claim C8. With \<open>deltaHz = 15\<close>, two consecutive calls of \<open>Room.tick\<close> whose timestamps
  satisfy \<open>now2 - now1 < 1000 / 15\<close> broadcast at most one Delta between them, whatever
  \<open>lastDeltaSent\<close> was before the first call and whatever the two time steps are.
\<close>

theorem delta_throttling:
  assumes "deltaHz (cfg (sim rm)) = 15" and "now2 - now1 < 1000 / 15"
  shows "deltas_sent (snd (Room_tick rm dt1 now1)) +
         deltas_sent (snd (Room_tick (fst (Room_tick rm dt1 now1)) dt2 now2)) \<le> 1"
proof (cases "deltas_sent (snd (Room_tick rm dt1 now1)) = 0")
  case True
  then show ?thesis
    using deltas_sent_le [of "snd (Room_tick (fst (Room_tick rm dt1 now1)) dt2 now2)"] by simp
next
  case False
  let ?rm1 = "fst (Room_tick rm dt1 now1)"
  have last: "lastDeltaSent ?rm1 = now1"
    using False by (rule Room_tick_sent)
  have "deltas_sent (snd (Room_tick ?rm1 dt2 now2)) = 0"
  proof (rule ccontr)
    assume "deltas_sent (snd (Room_tick ?rm1 dt2 now2)) \<noteq> 0"
    then have "now2 - lastDeltaSent ?rm1 \<ge> 1000 / deltaHz (cfg (sim ?rm1))"
      by (rule Room_tick_sent)
    then show False
      using assms last by simp
  qed
  then show ?thesis
    using deltas_sent_le [of "snd (Room_tick rm dt1 now1)"] by simp
qed

theorem delta_throttling_witness:
  "deltaHz (cfg (sim (ex_room [] 0))) = 15 \<and> (1033 :: real) - 1000 < 1000 / 15 \<and>
   deltas_sent (snd (Room_tick (ex_room [] 0) (1 / 30) 1000)) = 1 \<and>
   deltas_sent (snd (Room_tick (ex_room [] 0) (1 / 30) 1000)) +
   deltas_sent (snd (Room_tick (fst (Room_tick (ex_room [] 0) (1 / 30) 1000)) (1 / 30) 1033)) \<le> 1"
proof -
  have h: "deltaHz (cfg (sim (ex_room [] 0))) = 15"
    by (simp add: ex_room_def ex_state_def manager_cfg_def DELTA_HZ_def)
  have g: "(1033 :: real) - 1000 < 1000 / 15"
    by simp
  have st: "step (sim (ex_room [] 0)) (1 / 30) =
      ((ex_state 50 [])\<lparr> planets := map (accrue (1 / 30)) (ex_planets 50), tick := Suc 0 \<rparr>, [])"
    by (simp only: sim_ex_room step_ex_state_empty)
  have one: "deltas_sent (snd (Room_tick (ex_room [] 0) (1 / 30) 1000)) = 1"
    unfolding Room_tick_unfold [OF st]
    by (simp add: ex_room_def Let_def deltas_sent_def ex_state_def manager_cfg_def DELTA_HZ_def)
  show ?thesis
    using h g one delta_throttling [OF h g, of "1 / 30" "1 / 30"] by blast
qed

section \<open>C9: ship counts are never negative\<close>




section \<open>C10: no in-flight attrition\<close>

text \<open>
  Claim C10. Every fleet that is still in the fleet map after \<open>step\<close> was in it before, and
  \<open>step\<close> changed nothing of it but its position, by \<open>velocity * dt\<close>; ship count, owner,
  velocity, origin and destination are untouched. The same holds over any run of steps, so a
  fleet reaches its destination with the ship count it was launched with.
\<close>

theorem step_fleet_frame:
  "((k, f') \<in> set (fleets (fst (step s dt))) \<longrightarrow>
      (\<exists>f. (k, f) \<in> set (fleets s) \<and>
         f' = f\<lparr> f_x := f_x f + f_vx f * dt, f_y := f_y f + f_vy f * dt \<rparr>))
   \<and> ((k, f') \<in> set (fleets (steps s dts)) \<longrightarrow>
      (\<exists>f. (k, f) \<in> set (fleets s) \<and>
         f' = f\<lparr> f_x := f_x f + f_vx f * sum_list dts, f_y := f_y f + f_vy f * sum_list dts \<rparr>))"
  using step_frame [of k f' s dt] steps_frame [of k f' s dts]
  by (auto simp: advance_def)

theorem step_fleet_frame_witness:
  "(1, (ex_fleet 20 126)\<lparr> f_x := 130 \<rparr>) \<in> set (fleets (fst (step (ex_state 50 [(1, ex_fleet 20 126)]) (1 / 30)))) \<and>
   (1, (ex_fleet 20 126)\<lparr> f_x := 134 \<rparr>) \<in> set (fleets (steps (ex_state 50 [(1, ex_fleet 20 126)]) [1 / 30, 1 / 30])) \<and>
   (\<exists>f. (1, f) \<in> set (fleets (ex_state 50 [(1, ex_fleet 20 126)])) \<and> f_ships f = 20 \<and>
      (ex_fleet 20 126)\<lparr> f_x := 134 \<rparr> = f\<lparr> f_x := f_x f + f_vx f * sum_list [1 / 30, 1 / 30],
                                            f_y := f_y f + f_vy f * sum_list [1 / 30, 1 / 30] \<rparr>)"
proof -
  let ?s = "ex_state 50 [(1, ex_fleet 20 126)]"
  have s1: "step ?s (1 / 30) =
      (?s\<lparr> planets := map (accrue (1 / 30)) (ex_planets 50),
           fleets := [(1, (ex_fleet 20 126)\<lparr> f_x := 130 \<rparr>)], tick := 1 \<rparr>, [])"
    by (simp add: step_def step_fleet_pair ex_state_def arrived_def advance_def ex_planets_def
        ex_fleet_def dist_xy_same_y accrue_def)
  have s2: "step (?s\<lparr> planets := map (accrue (1 / 30)) (ex_planets 50),
           fleets := [(1, (ex_fleet 20 126)\<lparr> f_x := 130 \<rparr>)], tick := 1 \<rparr>) (1 / 30) =
      (?s\<lparr> planets := map (accrue (1 / 30)) (map (accrue (1 / 30)) (ex_planets 50)),
           fleets := [(1, (ex_fleet 20 126)\<lparr> f_x := 134 \<rparr>)], tick := 2 \<rparr>, [])"
    by (simp add: step_def step_fleet_pair ex_state_def arrived_def advance_def ex_planets_def
        ex_fleet_def dist_xy_same_y accrue_def)
  have m1: "(1, (ex_fleet 20 126)\<lparr> f_x := 130 \<rparr>) \<in> set (fleets (fst (step ?s (1 / 30))))"
    unfolding s1 by simp
  have m2: "(1, (ex_fleet 20 126)\<lparr> f_x := 134 \<rparr>) \<in> set (fleets (steps ?s [1 / 30, 1 / 30]))"
    unfolding steps.simps s1 fst_conv s2 by simp
  from step_fleet_frame [of 1 "(ex_fleet 20 126)\<lparr> f_x := 134 \<rparr>" ?s "1 / 30" "[1 / 30, 1 / 30]"] m2
  obtain f where f: "(1, f) \<in> set (fleets ?s)"
    and e: "(ex_fleet 20 126)\<lparr> f_x := 134 \<rparr> =
      f\<lparr> f_x := f_x f + f_vx f * sum_list [1 / 30, 1 / 30],
         f_y := f_y f + f_vy f * sum_list [1 / 30, 1 / 30] \<rparr>"
    by blast
  from f have "f_ships f = 20"
    by (simp add: ex_state_def ex_fleet_def)
  with f e m1 m2 show ?thesis by blast
qed

end
